theory Spec2Isabelle
  imports Complex_Main "HOL-Library.Word"
begin

unbundle bit_operations_syntax

section \<open>Shared value types (include/pal/radio.h)\<close>

type_synonym byte = "8 word"

text \<open>\<^verbatim>\<open>enum class RadioMode\<close>: fifteen enumerators, in the order of the header.\<close>

datatype RadioMode =
  LSB | USB | CW | FM | FMW | AM | FSK | RTTY | CW_R | TUNE | FSK_R | DIG
  | DATA_LSB | DATA_USB | UNKNOWN

text \<open>
  \<^verbatim>\<open>struct Channel\<close>. The fields \<^verbatim>\<open>id\<close> and \<^verbatim>\<open>power\<close> carry a suffix because
  the plain names are HOL constants. The three \<^verbatim>\<open>int\<close> fields are only stored and
  copied, never computed with.
\<close>

record Channel =
  id_c :: byte
  tx_frequency :: "32 word"
  rx_frequency :: "32 word"
  tx_mode :: RadioMode
  rx_mode :: RadioMode
  antenna :: int
  power_c :: int
  attenuation :: int
  in_use :: bool

text \<open>The default member initialisers of \<^verbatim>\<open>struct Channel\<close>.\<close>

definition Channel_default :: Channel where
  "Channel_default =
     \<lparr>id_c = 0, tx_frequency = 0, rx_frequency = 0, tx_mode = USB, rx_mode = USB,
      antenna = 1, power_c = 100, attenuation = 0, in_use = False\<rparr>"

text \<open>
  Effects. A codec talks to the outside through three collaborators: the send callback,
  the serial port and the acknowledge callback. A \<^verbatim>\<open>std::function\<close> or a pointer is
  modelled by an optional handle (\<open>None\<close> is the empty function, respectively
  \<^verbatim>\<open>nullptr\<close>), and every call made on a collaborator is an event; an operation returns
  the events it caused, in order.
\<close>

type_synonym handle = nat

datatype event =
  CallbackSend handle "byte list"
  | SerialWrite handle "byte list"
  | AckCall handle


fun ack_count :: "event list \<Rightarrow> nat" where
  "ack_count [] = 0"
| "ack_count (AckCall h # es) = Suc (ack_count es)"
| "ack_count (_ # es) = ack_count es"

section \<open>Formatting with \<^verbatim>\<open>snprintf\<close>\<close>

text \<open>The decimal digits of an unsigned number, most significant first.\<close>

fun dec_string :: "nat \<Rightarrow> string" where
  "dec_string n =
     (if n < 10 then [''0123456789'' ! n]
      else dec_string (n div 10) @ [''0123456789'' ! (n mod 10)])"

declare dec_string.simps [simp del]

text \<open>The flag \<^verbatim>\<open>0\<close> with a field width: zeros on the left up to the width.\<close>

definition pad_zeros :: "nat \<Rightarrow> string \<Rightarrow> string" where
  "pad_zeros w s = replicate (w - length s) CHR ''0'' @ s"

text \<open>\<^verbatim>\<open>%0<w>u\<close> and \<^verbatim>\<open>%0<w>d\<close>; the sign of a negative number counts in the width.\<close>

definition fmt_u :: "nat \<Rightarrow> nat \<Rightarrow> string" where
  "fmt_u w n = pad_zeros w (dec_string n)"

definition fmt_d :: "nat \<Rightarrow> int \<Rightarrow> string" where
  "fmt_d w i =
     (if i < 0 then CHR ''-'' # pad_zeros (w - 1) (dec_string (nat (- i)))
      else pad_zeros w (dec_string (nat i)))"

text \<open>\<^verbatim>\<open>snprintf(buf, size, ...)\<close> keeps at most \<open>size - 1\<close> characters (\<open>n\<close> is the size).\<close>

definition snprintf :: "nat \<Rightarrow> string \<Rightarrow> string" where
  "snprintf n s = take (n - 1) s"

text \<open>\<^verbatim>\<open>reinterpret_cast<const uint8_t*>(cmd.c_str())\<close> with \<^verbatim>\<open>cmd.size()\<close>.\<close>

definition bytes_of :: "string \<Rightarrow> byte list" where
  "bytes_of s = map (\<lambda>c. of_char c) s"

section \<open>Kenwood codec (src/radios/kenwood.cpp)\<close>

text \<open>\<^verbatim>\<open>enum class KenwoodMode : uint8_t\<close>; a mode code is the byte itself.\<close>

definition KenwoodMode_LSB :: byte where "KenwoodMode_LSB = 1"
definition KenwoodMode_USB :: byte where "KenwoodMode_USB = 2"
definition KenwoodMode_CW :: byte where "KenwoodMode_CW = 3"
definition KenwoodMode_FM :: byte where "KenwoodMode_FM = 4"
definition KenwoodMode_AM :: byte where "KenwoodMode_AM = 5"
definition KenwoodMode_FSK :: byte where "KenwoodMode_FSK = 6"
definition KenwoodMode_CW_R :: byte where "KenwoodMode_CW_R = 7"
definition KenwoodMode_FSK_R :: byte where "KenwoodMode_FSK_R = 9"

record Kenwood =
  kw_serial :: "handle option"
  kw_current_channel :: Channel
  kw_transmitting :: bool
  kw_ready :: bool
  kw_send_callback :: "handle option"
  kw_ack_callback :: "handle option"
  kw_rx_buffer :: "byte list"

text \<open>The constructor: the serial pointer is stored, every other member is default.\<close>

definition Kenwood_new :: "handle option \<Rightarrow> Kenwood" where
  "Kenwood_new serial =
     \<lparr>kw_serial = serial, kw_current_channel = Channel_default,
      kw_transmitting = False, kw_ready = False,
      kw_send_callback = None, kw_ack_callback = None, kw_rx_buffer = []\<rparr>"

definition Kenwood_initialize :: "Kenwood \<Rightarrow> bool \<times> Kenwood" where
  "Kenwood_initialize s = (True, s\<lparr>kw_rx_buffer := [], kw_ready := True\<rparr>)"

definition Kenwood_shutdown :: "Kenwood \<Rightarrow> Kenwood" where
  "Kenwood_shutdown s = s\<lparr>kw_ready := False\<rparr>"

definition Kenwood_start :: "Kenwood \<Rightarrow> bool" where
  "Kenwood_start s = kw_ready s"

definition Kenwood_stop :: "Kenwood \<Rightarrow> Kenwood" where
  "Kenwood_stop s = s"

fun radio_mode_to_kenwood :: "RadioMode \<Rightarrow> byte" where
  "radio_mode_to_kenwood LSB = KenwoodMode_LSB"
| "radio_mode_to_kenwood USB = KenwoodMode_USB"
| "radio_mode_to_kenwood CW = KenwoodMode_CW"
| "radio_mode_to_kenwood FM = KenwoodMode_FM"
| "radio_mode_to_kenwood AM = KenwoodMode_AM"
| "radio_mode_to_kenwood FSK = KenwoodMode_FSK"
| "radio_mode_to_kenwood RTTY = KenwoodMode_FSK"
| "radio_mode_to_kenwood CW_R = KenwoodMode_CW_R"
| "radio_mode_to_kenwood FSK_R = KenwoodMode_FSK_R"
| "radio_mode_to_kenwood DATA_USB = KenwoodMode_USB"
| "radio_mode_to_kenwood DATA_LSB = KenwoodMode_LSB"
| "radio_mode_to_kenwood _ = KenwoodMode_USB"

definition kenwood_to_radio_mode :: "byte \<Rightarrow> RadioMode" where
  "kenwood_to_radio_mode m =
     (if m = KenwoodMode_LSB then LSB
      else if m = KenwoodMode_USB then USB
      else if m = KenwoodMode_CW then CW
      else if m = KenwoodMode_FM then FM
      else if m = KenwoodMode_AM then AM
      else if m = KenwoodMode_FSK then FSK
      else if m = KenwoodMode_CW_R then CW_R
      else if m = KenwoodMode_FSK_R then FSK_R
      else USB)"

text \<open>\<^verbatim>\<open>snprintf(buf, 16, "F%c%011u;", vfo, freq_hz)\<close>\<close>

definition build_freq_command :: "char \<Rightarrow> 32 word \<Rightarrow> string" where
  "build_freq_command vfo freq_hz =
     snprintf 16 (CHR ''F'' # vfo # fmt_u 11 (unat freq_hz) @ '';'')"

text \<open>\<^verbatim>\<open>snprintf(buf, 8, "MD%d;", static_cast<int>(radio_mode_to_kenwood(mode)))\<close>\<close>

definition build_mode_command :: "RadioMode \<Rightarrow> string" where
  "build_mode_command m =
     snprintf 8 (''MD'' @ fmt_d 0 (uint (radio_mode_to_kenwood m)) @ '';'')"

text \<open>The send primitive: the callback if one is registered, else the serial port.\<close>

definition Kenwood_send_command :: "Kenwood \<Rightarrow> string \<Rightarrow> event list" where
  "Kenwood_send_command s cmd =
     (case kw_send_callback s of
        Some cb \<Rightarrow> [CallbackSend cb (bytes_of cmd)]
      | None \<Rightarrow>
          (case kw_serial s of
             Some p \<Rightarrow> [SerialWrite p (bytes_of cmd)]
           | None \<Rightarrow> []))"

definition Kenwood_set_channel :: "Channel \<Rightarrow> Kenwood \<Rightarrow> bool \<times> Kenwood \<times> event list" where
  "Kenwood_set_channel channel s =
     (if \<not> kw_ready s \<or> kw_serial s = None then (False, s, [])
      else (True, s\<lparr>kw_current_channel := channel\<rparr>,
            Kenwood_send_command s (build_freq_command CHR ''A'' (rx_frequency channel))
            @ Kenwood_send_command s (build_mode_command (rx_mode channel))))"

definition Kenwood_get_channel :: "Kenwood \<Rightarrow> Channel" where
  "Kenwood_get_channel s = kw_current_channel s"

definition Kenwood_set_ptt :: "bool \<Rightarrow> Kenwood \<Rightarrow> Kenwood \<times> event list" where
  "Kenwood_set_ptt transmit s =
     (if \<not> kw_ready s \<or> kw_serial s = None then (s, [])
      else (s\<lparr>kw_transmitting := transmit\<rparr>,
            Kenwood_send_command s (if transmit then ''TX;'' else ''RX;'')))"

definition Kenwood_is_transmitting :: "Kenwood \<Rightarrow> bool" where
  "Kenwood_is_transmitting s = kw_transmitting s"

definition Kenwood_is_ready :: "Kenwood \<Rightarrow> bool" where
  "Kenwood_is_ready s = kw_ready s"

definition Kenwood_get_port_config :: "Kenwood \<Rightarrow> string" where
  "Kenwood_get_port_config s = ''9600,n,8,1''"

definition Kenwood_register_send_callback :: "handle option \<Rightarrow> Kenwood \<Rightarrow> Kenwood" where
  "Kenwood_register_send_callback callback s = s\<lparr>kw_send_callback := callback\<rparr>"

definition Kenwood_register_ack_callback :: "handle option \<Rightarrow> Kenwood \<Rightarrow> Kenwood" where
  "Kenwood_register_ack_callback callback s = s\<lparr>kw_ack_callback := callback\<rparr>"

text \<open>
  One turn of the loop of \<^verbatim>\<open>process_response\<close>: append the byte, on \<^verbatim>\<open>';'\<close>
  acknowledge and clear, then clear a buffer of more than 256 bytes.
\<close>

definition Kenwood_rx_byte :: "byte \<Rightarrow> Kenwood \<Rightarrow> Kenwood \<times> event list" where
  "Kenwood_rx_byte c s =
     (let buf1 = kw_rx_buffer s @ [c];
          (buf2, ev) =
            (if c = of_char CHR '';''
             then ([], (case kw_ack_callback s of Some a \<Rightarrow> [AckCall a] | None \<Rightarrow> []))
             else (buf1, []));
          buf3 = (if length buf2 > 256 then [] else buf2)
      in (s\<lparr>kw_rx_buffer := buf3\<rparr>, ev))"

fun Kenwood_process_response :: "byte list \<Rightarrow> Kenwood \<Rightarrow> Kenwood \<times> event list" where
  "Kenwood_process_response [] s = (s, [])"
| "Kenwood_process_response (c # cs) s =
     (let (s1, ev1) = Kenwood_rx_byte c s;
          (s2, ev2) = Kenwood_process_response cs s1
      in (s2, ev1 @ ev2))"

section \<open>Elecraft codec (src/radios/elecraft.cpp)\<close>

text \<open>
  \<^verbatim>\<open>class Elecraft : public Kenwood\<close> declares no data member: an Elecraft object is
  its Kenwood base object. It overrides \<^verbatim>\<open>get_port_config\<close> and adds two commands,
  both sent with \<^verbatim>\<open>Kenwood::send_command\<close>, without a test of readiness.
\<close>

type_synonym Elecraft = Kenwood

definition Elecraft_new :: "handle option \<Rightarrow> Elecraft" where
  "Elecraft_new serial = Kenwood_new serial"

definition Elecraft_get_port_config :: "Elecraft \<Rightarrow> string" where
  "Elecraft_get_port_config s = ''38400,n,8,1''"

text \<open>\<^verbatim>\<open>snprintf(buf, 8, "PC%03d;", watts)\<close>\<close>

definition Elecraft_set_power :: "int \<Rightarrow> Elecraft \<Rightarrow> event list" where
  "Elecraft_set_power watts s =
     Kenwood_send_command s (snprintf 8 (''PC'' @ fmt_d 3 watts @ '';''))"

text \<open>\<^verbatim>\<open>snprintf(buf, 8, "AN%d;", ant)\<close>\<close>

definition Elecraft_set_antenna :: "int \<Rightarrow> Elecraft \<Rightarrow> event list" where
  "Elecraft_set_antenna ant s =
     Kenwood_send_command s (snprintf 8 (''AN'' @ fmt_d 0 ant @ '';''))"

text \<open>
  Virtual dispatch over the \<^verbatim>\<open>IRadio\<close> interface for the two classes of the Kenwood
  family. A call on an object of dynamic class \<open>cls\<close> runs the final overrider: the
  function of \<^verbatim>\<open>Elecraft\<close> where that class overrides it, the function of
  \<^verbatim>\<open>Kenwood\<close> otherwise.
\<close>

datatype radio_class = KenwoodClass | ElecraftClass

datatype radio_call =
  Initialize | Shutdown | Start | Stop
  | SetChannel Channel | GetChannel
  | SetPtt bool | IsTransmitting | IsReady | GetPortConfig
  | RegisterSendCallback "handle option" | RegisterAckCallback "handle option"
  | ProcessResponse "byte list"

datatype radio_result = RVoid | RBool bool | RChannel Channel | RString string

fun radio_invoke ::
  "radio_class \<Rightarrow> radio_call \<Rightarrow> Kenwood \<Rightarrow> radio_result \<times> Kenwood \<times> event list" where
  "radio_invoke cls Initialize s = (let (b, s') = Kenwood_initialize s in (RBool b, s', []))"
| "radio_invoke cls Shutdown s = (RVoid, Kenwood_shutdown s, [])"
| "radio_invoke cls Start s = (RBool (Kenwood_start s), s, [])"
| "radio_invoke cls Stop s = (RVoid, Kenwood_stop s, [])"
| "radio_invoke cls (SetChannel c) s =
     (let (b, s', ev) = Kenwood_set_channel c s in (RBool b, s', ev))"
| "radio_invoke cls GetChannel s = (RChannel (Kenwood_get_channel s), s, [])"
| "radio_invoke cls (SetPtt t) s = (let (s', ev) = Kenwood_set_ptt t s in (RVoid, s', ev))"
| "radio_invoke cls IsTransmitting s = (RBool (Kenwood_is_transmitting s), s, [])"
| "radio_invoke cls IsReady s = (RBool (Kenwood_is_ready s), s, [])"
| "radio_invoke KenwoodClass GetPortConfig s = (RString (Kenwood_get_port_config s), s, [])"
| "radio_invoke ElecraftClass GetPortConfig s = (RString (Elecraft_get_port_config s), s, [])"
| "radio_invoke cls (RegisterSendCallback cb) s =
     (RVoid, Kenwood_register_send_callback cb s, [])"
| "radio_invoke cls (RegisterAckCallback cb) s =
     (RVoid, Kenwood_register_ack_callback cb s, [])"
| "radio_invoke cls (ProcessResponse bs) s =
     (let (s', ev) = Kenwood_process_response bs s in (RVoid, s', ev))"

text \<open>A sequence of calls on one object: the results, the final state, all events.\<close>

fun radio_run ::
  "radio_class \<Rightarrow> radio_call list \<Rightarrow> Kenwood \<Rightarrow> radio_result list \<times> Kenwood \<times> event list" where
  "radio_run cls [] s = ([], s, [])"
| "radio_run cls (c # cs) s =
     (let (r, s1, ev1) = radio_invoke cls c s;
          (rs, s2, ev2) = radio_run cls cs s1
      in (r # rs, s2, ev1 @ ev2))"

section \<open>Icom CI-V codec (src/radios/icom_civ.cpp)\<close>

definition CIV_PREAMBLE :: byte where "CIV_PREAMBLE = 0xFE"
definition CIV_EOM :: byte where "CIV_EOM = 0xFD"
definition CIV_CONTROLLER :: byte where "CIV_CONTROLLER = 0xE0"
definition CIV_ACK :: byte where "CIV_ACK = 0xFB"
definition CIV_NAK :: byte where "CIV_NAK = 0xFA"

text \<open>\<^verbatim>\<open>enum class CivCommand : uint8_t\<close>, the commands the codec sends.\<close>

definition CivCommand_SET_FREQ :: byte where "CivCommand_SET_FREQ = 0x05"
definition CivCommand_SET_MODE :: byte where "CivCommand_SET_MODE = 0x06"
definition CivCommand_PTT :: byte where "CivCommand_PTT = 0x1C"

text \<open>\<^verbatim>\<open>enum class CivMode : uint8_t\<close>\<close>

definition CivMode_LSB :: byte where "CivMode_LSB = 0x00"
definition CivMode_USB :: byte where "CivMode_USB = 0x01"
definition CivMode_AM :: byte where "CivMode_AM = 0x02"
definition CivMode_CW :: byte where "CivMode_CW = 0x03"
definition CivMode_RTTY :: byte where "CivMode_RTTY = 0x04"
definition CivMode_FM :: byte where "CivMode_FM = 0x05"
definition CivMode_CW_R :: byte where "CivMode_CW_R = 0x07"
definition CivMode_RTTY_R :: byte where "CivMode_RTTY_R = 0x08"
definition CivMode_DV :: byte where "CivMode_DV = 0x17"

record IcomCiv =
  civ_serial :: "handle option"
  civ_radio_addr :: byte
  civ_controller_addr :: byte
  civ_current_channel :: Channel
  civ_transmitting :: bool
  civ_ready :: bool
  civ_send_callback :: "handle option"
  civ_ack_callback :: "handle option"
  civ_rx_buffer :: "byte list"

definition IcomCiv_new :: "handle option \<Rightarrow> byte \<Rightarrow> IcomCiv" where
  "IcomCiv_new serial radio_addr =
     \<lparr>civ_serial = serial, civ_radio_addr = radio_addr,
      civ_controller_addr = CIV_CONTROLLER, civ_current_channel = Channel_default,
      civ_transmitting = False, civ_ready = False,
      civ_send_callback = None, civ_ack_callback = None, civ_rx_buffer = []\<rparr>"

definition IcomCiv_initialize :: "IcomCiv \<Rightarrow> bool \<times> IcomCiv" where
  "IcomCiv_initialize s = (True, s\<lparr>civ_rx_buffer := [], civ_ready := True\<rparr>)"

definition IcomCiv_shutdown :: "IcomCiv \<Rightarrow> IcomCiv" where
  "IcomCiv_shutdown s = s\<lparr>civ_ready := False\<rparr>"

definition IcomCiv_start :: "IcomCiv \<Rightarrow> bool" where
  "IcomCiv_start s = civ_ready s"

definition IcomCiv_stop :: "IcomCiv \<Rightarrow> IcomCiv" where
  "IcomCiv_stop s = s"

definition IcomCiv_is_transmitting :: "IcomCiv \<Rightarrow> bool" where
  "IcomCiv_is_transmitting s = civ_transmitting s"


definition IcomCiv_get_port_config :: "IcomCiv \<Rightarrow> string" where
  "IcomCiv_get_port_config s = ''9600,n,8,1''"

definition IcomCiv_set_radio_address :: "byte \<Rightarrow> IcomCiv \<Rightarrow> IcomCiv" where
  "IcomCiv_set_radio_address addr s = s\<lparr>civ_radio_addr := addr\<rparr>"

definition IcomCiv_get_radio_address :: "IcomCiv \<Rightarrow> byte" where
  "IcomCiv_get_radio_address s = civ_radio_addr s"

definition IcomCiv_register_send_callback :: "handle option \<Rightarrow> IcomCiv \<Rightarrow> IcomCiv" where
  "IcomCiv_register_send_callback callback s = s\<lparr>civ_send_callback := callback\<rparr>"

definition IcomCiv_register_ack_callback :: "handle option \<Rightarrow> IcomCiv \<Rightarrow> IcomCiv" where
  "IcomCiv_register_ack_callback callback s = s\<lparr>civ_ack_callback := callback\<rparr>"

text \<open>
  \<^verbatim>\<open>freq_to_bcd(freq_hz, bcd, len)\<close>: the \<open>len\<close> bytes written to \<^verbatim>\<open>bcd\<close>, two
  decimal digits a byte, least significant byte first. The digits are computed in
  \<^verbatim>\<open>uint32_t\<close> and narrowed to \<^verbatim>\<open>uint8_t\<close>.
\<close>

fun freq_to_bcd :: "32 word \<Rightarrow> nat \<Rightarrow> byte list" where
  "freq_to_bcd freq_hz 0 = []"
| "freq_to_bcd freq_hz (Suc len) =
     (let lo = (ucast (freq_hz mod 10) :: byte);
          freq1 = freq_hz div 10;
          hi = (ucast (freq1 mod 10) :: byte);
          freq2 = freq1 div 10
      in (push_bit 4 hi OR lo) # freq_to_bcd freq2 len)"

text \<open>
  \<^verbatim>\<open>bcd_to_freq(bcd, len)\<close>: the loop with its two accumulators, both \<^verbatim>\<open>uint32_t\<close>
  (sums and products wrap). Reading more than the array holds is undefined: \<open>None\<close>.
\<close>

fun bcd_to_freq_loop :: "byte list \<Rightarrow> 32 word \<Rightarrow> 32 word \<Rightarrow> 32 word" where
  "bcd_to_freq_loop [] freq mult = freq"
| "bcd_to_freq_loop (b # bs) freq mult =
     (let lo = b AND 0x0F;
          hi = drop_bit 4 b AND 0x0F;
          freq1 = freq + ucast lo * mult;
          mult1 = mult * 10;
          freq2 = freq1 + ucast hi * mult1;
          mult2 = mult1 * 10
      in bcd_to_freq_loop bs freq2 mult2)"

definition bcd_to_freq :: "byte list \<Rightarrow> nat \<Rightarrow> 32 word option" where
  "bcd_to_freq bcd len =
     (if len \<le> length bcd then Some (bcd_to_freq_loop (take len bcd) 0 1) else None)"

fun radio_mode_to_civ :: "RadioMode \<Rightarrow> byte" where
  "radio_mode_to_civ LSB = CivMode_LSB"
| "radio_mode_to_civ USB = CivMode_USB"
| "radio_mode_to_civ AM = CivMode_AM"
| "radio_mode_to_civ CW = CivMode_CW"
| "radio_mode_to_civ RTTY = CivMode_RTTY"
| "radio_mode_to_civ FM = CivMode_FM"
| "radio_mode_to_civ CW_R = CivMode_CW_R"
| "radio_mode_to_civ FSK = CivMode_RTTY"
| "radio_mode_to_civ FSK_R = CivMode_RTTY_R"
| "radio_mode_to_civ DATA_LSB = CivMode_LSB"
| "radio_mode_to_civ DATA_USB = CivMode_USB"
| "radio_mode_to_civ _ = CivMode_USB"

definition civ_to_radio_mode :: "byte \<Rightarrow> RadioMode" where
  "civ_to_radio_mode m =
     (if m = CivMode_LSB then LSB
      else if m = CivMode_USB then USB
      else if m = CivMode_AM then AM
      else if m = CivMode_CW then CW
      else if m = CivMode_RTTY then RTTY
      else if m = CivMode_FM then FM
      else if m = CivMode_CW_R then CW_R
      else if m = CivMode_RTTY_R then FSK_R
      else USB)"

text \<open>The two overloads of \<^verbatim>\<open>build_frame\<close>; \<open>data\<close> is the \<open>len\<close> bytes at the pointer.\<close>

definition build_frame :: "IcomCiv \<Rightarrow> byte \<Rightarrow> byte list \<Rightarrow> byte list" where
  "build_frame s cmd data =
     [CIV_PREAMBLE, CIV_PREAMBLE, civ_radio_addr s, civ_controller_addr s, cmd]
     @ (if length data > 0 then data else []) @ [CIV_EOM]"

definition build_frame_sub :: "IcomCiv \<Rightarrow> byte \<Rightarrow> byte \<Rightarrow> byte list \<Rightarrow> byte list" where
  "build_frame_sub s cmd subcmd data =
     [CIV_PREAMBLE, CIV_PREAMBLE, civ_radio_addr s, civ_controller_addr s, cmd, subcmd]
     @ (if length data > 0 then data else []) @ [CIV_EOM]"

definition send_frame :: "IcomCiv \<Rightarrow> byte list \<Rightarrow> event list" where
  "send_frame s frame =
     (case civ_send_callback s of
        Some cb \<Rightarrow> [CallbackSend cb frame]
      | None \<Rightarrow>
          (case civ_serial s of
             Some p \<Rightarrow> [SerialWrite p frame]
           | None \<Rightarrow> []))"

definition IcomCiv_set_channel :: "Channel \<Rightarrow> IcomCiv \<Rightarrow> bool \<times> IcomCiv \<times> event list" where
  "IcomCiv_set_channel channel s =
     (if \<not> civ_ready s \<or> civ_serial s = None then (False, s, [])
      else (True, s\<lparr>civ_current_channel := channel\<rparr>,
            send_frame s (build_frame s CivCommand_SET_FREQ
                            (freq_to_bcd (rx_frequency channel) 5))
            @ send_frame s (build_frame s CivCommand_SET_MODE
                              [radio_mode_to_civ (rx_mode channel)])))"

definition IcomCiv_get_channel :: "IcomCiv \<Rightarrow> Channel" where
  "IcomCiv_get_channel s = civ_current_channel s"

definition IcomCiv_set_ptt :: "bool \<Rightarrow> IcomCiv \<Rightarrow> IcomCiv \<times> event list" where
  "IcomCiv_set_ptt transmit s =
     (if \<not> civ_ready s \<or> civ_serial s = None then (s, [])
      else (s\<lparr>civ_transmitting := transmit\<rparr>,
            send_frame s (build_frame_sub s CivCommand_PTT 0x00
                            [if transmit then 0x01 else 0x00])))"

text \<open>
  One turn of the loop of \<^verbatim>\<open>process_response\<close>: append the byte; on the end marker
  look at a buffer of six bytes or more that opens with two preambles, acknowledge if
  the byte at offset 4 is the ACK code, and clear the buffer whatever it held; then
  clear a buffer of more than 256 bytes.
\<close>

definition IcomCiv_rx_byte :: "byte \<Rightarrow> IcomCiv \<Rightarrow> IcomCiv \<times> event list" where
  "IcomCiv_rx_byte d s =
     (let buf1 = civ_rx_buffer s @ [d];
          (buf2, ev) =
            (if d = CIV_EOM
             then ([],
                   (if length buf1 \<ge> 6 \<and> buf1 ! 0 = CIV_PREAMBLE \<and> buf1 ! 1 = CIV_PREAMBLE
                    then (if length buf1 \<ge> 6
                          then (if buf1 ! 4 = CIV_ACK
                                then (case civ_ack_callback s of
                                        Some a \<Rightarrow> [AckCall a] | None \<Rightarrow> [])
                                else [])
                          else [])
                    else []))
             else (buf1, []));
          buf3 = (if length buf2 > 256 then [] else buf2)
      in (s\<lparr>civ_rx_buffer := buf3\<rparr>, ev))"

fun IcomCiv_process_response :: "byte list \<Rightarrow> IcomCiv \<Rightarrow> IcomCiv \<times> event list" where
  "IcomCiv_process_response [] s = (s, [])"
| "IcomCiv_process_response (d # ds) s =
     (let (s1, ev1) = IcomCiv_rx_byte d s;
          (s2, ev2) = IcomCiv_process_response ds s1
      in (s2, ev1 @ ev2))"

section \<open>Yaesu CAT codec (src/radios/yaesu_cat.cpp)\<close>

text \<open>\<^verbatim>\<open>enum class YaesuCommand : uint8_t\<close>, the commands the codec sends.\<close>

definition YaesuCommand_SET_FREQ :: byte where "YaesuCommand_SET_FREQ = 0x01"
definition YaesuCommand_SET_MODE :: byte where "YaesuCommand_SET_MODE = 0x07"
definition YaesuCommand_PTT_ON :: byte where "YaesuCommand_PTT_ON = 0x08"
definition YaesuCommand_PTT_OFF :: byte where "YaesuCommand_PTT_OFF = 0x88"

text \<open>
  \<^verbatim>\<open>enum class YaesuMode : uint8_t\<close>. Three enumerators share the value \<^verbatim>\<open>0x0A\<close>.
\<close>

definition YaesuMode_LSB :: byte where "YaesuMode_LSB = 0x00"
definition YaesuMode_USB :: byte where "YaesuMode_USB = 0x01"
definition YaesuMode_CW :: byte where "YaesuMode_CW = 0x02"
definition YaesuMode_CW_R :: byte where "YaesuMode_CW_R = 0x03"
definition YaesuMode_AM :: byte where "YaesuMode_AM = 0x04"
definition YaesuMode_FM :: byte where "YaesuMode_FM = 0x08"
definition YaesuMode_DIG :: byte where "YaesuMode_DIG = 0x0A"
definition YaesuMode_PKT :: byte where "YaesuMode_PKT = 0x0C"
definition YaesuMode_FM_N :: byte where "YaesuMode_FM_N = 0x88"
definition YaesuMode_DIG_USB :: byte where "YaesuMode_DIG_USB = 0x0A"
definition YaesuMode_DIG_LSB :: byte where "YaesuMode_DIG_LSB = 0x0A"

record YaesuCat =
  ys_serial :: "handle option"
  ys_current_channel :: Channel
  ys_transmitting :: bool
  ys_ready :: bool
  ys_send_callback :: "handle option"
  ys_ack_callback :: "handle option"

definition YaesuCat_new :: "handle option \<Rightarrow> YaesuCat" where
  "YaesuCat_new serial =
     \<lparr>ys_serial = serial, ys_current_channel = Channel_default,
      ys_transmitting = False, ys_ready = False,
      ys_send_callback = None, ys_ack_callback = None\<rparr>"

definition YaesuCat_initialize :: "YaesuCat \<Rightarrow> bool \<times> YaesuCat" where
  "YaesuCat_initialize s = (True, s\<lparr>ys_ready := True\<rparr>)"

definition YaesuCat_shutdown :: "YaesuCat \<Rightarrow> YaesuCat" where
  "YaesuCat_shutdown s = s\<lparr>ys_ready := False\<rparr>"

definition YaesuCat_start :: "YaesuCat \<Rightarrow> bool" where
  "YaesuCat_start s = ys_ready s"

definition YaesuCat_stop :: "YaesuCat \<Rightarrow> YaesuCat" where
  "YaesuCat_stop s = s"

definition YaesuCat_is_transmitting :: "YaesuCat \<Rightarrow> bool" where
  "YaesuCat_is_transmitting s = ys_transmitting s"


definition YaesuCat_get_port_config :: "YaesuCat \<Rightarrow> string" where
  "YaesuCat_get_port_config s = ''9600,n,8,2''"

definition YaesuCat_register_send_callback :: "handle option \<Rightarrow> YaesuCat \<Rightarrow> YaesuCat" where
  "YaesuCat_register_send_callback callback s = s\<lparr>ys_send_callback := callback\<rparr>"

definition YaesuCat_register_ack_callback :: "handle option \<Rightarrow> YaesuCat \<Rightarrow> YaesuCat" where
  "YaesuCat_register_ack_callback callback s = s\<lparr>ys_ack_callback := callback\<rparr>"

definition build_command :: "byte \<Rightarrow> byte \<Rightarrow> byte \<Rightarrow> byte \<Rightarrow> byte \<Rightarrow> byte list" where
  "build_command cmd p1 p2 p3 p4 = [p1, p2, p3, p4, cmd]"

definition YaesuCat_send_command :: "YaesuCat \<Rightarrow> byte list \<Rightarrow> event list" where
  "YaesuCat_send_command s cmd =
     (case ys_send_callback s of
        Some cb \<Rightarrow> [CallbackSend cb cmd]
      | None \<Rightarrow>
          (case ys_serial s of
             Some p \<Rightarrow> [SerialWrite p cmd]
           | None \<Rightarrow> []))"

text \<open>
  \<^verbatim>\<open>freq_to_packed_bcd(freq_hz, bcd)\<close>: the four bytes written. Each byte is computed
  in \<^verbatim>\<open>uint32_t\<close> (shift, then or) and narrowed to \<^verbatim>\<open>uint8_t\<close>.
\<close>

definition freq_to_packed_bcd :: "32 word \<Rightarrow> byte list" where
  "freq_to_packed_bcd freq_hz =
     (let freq_10hz = freq_hz div 10 in
      [ucast (push_bit 4 ((freq_10hz div 10000000) mod 10) OR ((freq_10hz div 1000000) mod 10)),
       ucast (push_bit 4 ((freq_10hz div 100000) mod 10) OR ((freq_10hz div 10000) mod 10)),
       ucast (push_bit 4 ((freq_10hz div 1000) mod 10) OR ((freq_10hz div 100) mod 10)),
       ucast (push_bit 4 ((freq_10hz div 10) mod 10) OR (freq_10hz mod 10))])"

text \<open>
  \<^verbatim>\<open>packed_bcd_to_freq(bcd)\<close> reads four bytes; fewer are an out-of-bounds read:
  \<open>None\<close>. The sum is a \<^verbatim>\<open>uint32_t\<close>.
\<close>

definition packed_bcd_to_freq :: "byte list \<Rightarrow> 32 word option" where
  "packed_bcd_to_freq bcd =
     (if length bcd < 4 then None
      else
        (let freq0 = (0 :: 32 word);
             freq1 = freq0 + ucast (drop_bit 4 (bcd ! 0) AND 0x0F) * 10000000;
             freq2 = freq1 + ucast (bcd ! 0 AND 0x0F) * 1000000;
             freq3 = freq2 + ucast (drop_bit 4 (bcd ! 1) AND 0x0F) * 100000;
             freq4 = freq3 + ucast (bcd ! 1 AND 0x0F) * 10000;
             freq5 = freq4 + ucast (drop_bit 4 (bcd ! 2) AND 0x0F) * 1000;
             freq6 = freq5 + ucast (bcd ! 2 AND 0x0F) * 100;
             freq7 = freq6 + ucast (drop_bit 4 (bcd ! 3) AND 0x0F) * 10;
             freq8 = freq7 + ucast (bcd ! 3 AND 0x0F)
         in Some (freq8 * 10)))"

fun radio_mode_to_yaesu :: "RadioMode \<Rightarrow> byte" where
  "radio_mode_to_yaesu LSB = YaesuMode_LSB"
| "radio_mode_to_yaesu USB = YaesuMode_USB"
| "radio_mode_to_yaesu CW = YaesuMode_CW"
| "radio_mode_to_yaesu CW_R = YaesuMode_CW_R"
| "radio_mode_to_yaesu AM = YaesuMode_AM"
| "radio_mode_to_yaesu FM = YaesuMode_FM"
| "radio_mode_to_yaesu DIG = YaesuMode_DIG"
| "radio_mode_to_yaesu FSK = YaesuMode_DIG"
| "radio_mode_to_yaesu DATA_USB = YaesuMode_DIG_USB"
| "radio_mode_to_yaesu DATA_LSB = YaesuMode_DIG_LSB"
| "radio_mode_to_yaesu _ = YaesuMode_USB"

definition yaesu_to_radio_mode :: "byte \<Rightarrow> RadioMode" where
  "yaesu_to_radio_mode m =
     (if m = YaesuMode_LSB then LSB
      else if m = YaesuMode_USB then USB
      else if m = YaesuMode_CW then CW
      else if m = YaesuMode_CW_R then CW_R
      else if m = YaesuMode_AM then AM
      else if m = YaesuMode_FM then FM
      else if m = YaesuMode_DIG then DIG
      else if m = YaesuMode_PKT then FSK
      else USB)"

definition YaesuCat_set_channel :: "Channel \<Rightarrow> YaesuCat \<Rightarrow> bool \<times> YaesuCat \<times> event list" where
  "YaesuCat_set_channel channel s =
     (if \<not> ys_ready s \<or> ys_serial s = None then (False, s, [])
      else
        (let freq_bcd = freq_to_packed_bcd (rx_frequency channel) in
         (True, s\<lparr>ys_current_channel := channel\<rparr>,
          YaesuCat_send_command s
            (build_command YaesuCommand_SET_FREQ
               (freq_bcd ! 0) (freq_bcd ! 1) (freq_bcd ! 2) (freq_bcd ! 3))
          @ YaesuCat_send_command s
              (build_command YaesuCommand_SET_MODE
                 (radio_mode_to_yaesu (rx_mode channel)) 0 0 0))))"

definition YaesuCat_get_channel :: "YaesuCat \<Rightarrow> Channel" where
  "YaesuCat_get_channel s = ys_current_channel s"

definition YaesuCat_set_ptt :: "bool \<Rightarrow> YaesuCat \<Rightarrow> YaesuCat \<times> event list" where
  "YaesuCat_set_ptt transmit s =
     (if \<not> ys_ready s \<or> ys_serial s = None then (s, [])
      else (s\<lparr>ys_transmitting := transmit\<rparr>,
            YaesuCat_send_command s
              (build_command (if transmit then YaesuCommand_PTT_ON else YaesuCommand_PTT_OFF)
                 0 0 0 0)))"

definition YaesuCat_process_response :: "byte list \<Rightarrow> YaesuCat \<Rightarrow> YaesuCat \<times> event list" where
  "YaesuCat_process_response bs s =
     (s, (if length bs > 0
          then (case ys_ack_callback s of Some a \<Rightarrow> [AckCall a] | None \<Rightarrow> [])
          else []))"

section \<open>Resampler (src/common/resampler.cpp)\<close>

text \<open>
  Samples are \<^verbatim>\<open>float\<close> in the source. The model leaves the sample type \<open>'a\<close> open
  and uses only its zero, sum and product, so that nothing is assumed of floating-point
  arithmetic; a fact about it that a theorem needs is a hypothesis of that theorem. The
  coefficient that \<^verbatim>\<open>design_filter\<close> computes at an index (a windowed sinc, in
  floating point) is the parameter \<open>design\<close>, and the conversion of \<^verbatim>\<open>ratio_\<close> to
  \<^verbatim>\<open>float\<close> in \<^verbatim>\<open>input[i] * ratio_\<close> is the parameter \<open>to_float\<close>.
  The float values and \<^verbatim>\<open>design_filter\<close> itself follow at the end of the section; they
  instantiate the two parameters where a statement depends on the coefficients.

  \<open>None\<close> is a call without a defined result: signed overflow, a failed allocation, an
  index outside its vector or a remainder by zero.
\<close>

record 'a Resampler =
  rs_ratio :: int
  rs_taps_per_phase :: int
  rs_total_taps :: int
  rs_coeffs :: "'a list"
  rs_history :: "'a list"
  rs_history_pos :: nat

text \<open>An \<^verbatim>\<open>int\<close> converted to \<^verbatim>\<open>size_t\<close> (64 bits), and the sum of two \<^verbatim>\<open>size_t\<close>.\<close>

definition size_t_of_int :: "int \<Rightarrow> nat" where
  "size_t_of_int i = nat (i mod 2 ^ 64)"

definition size_t_add :: "nat \<Rightarrow> nat \<Rightarrow> nat" where
  "size_t_add a b = (a + b) mod 2 ^ 64"

text \<open>
  The constructor. \<^verbatim>\<open>ratio * taps_per_phase\<close> is an \<^verbatim>\<open>int\<close> product, and a negative
  size makes the vector's constructor throw.
\<close>

definition Resampler_new :: "(int \<Rightarrow> int \<Rightarrow> nat \<Rightarrow> 'a::zero) \<Rightarrow> int \<Rightarrow> int \<Rightarrow> 'a Resampler option" where
  "Resampler_new design ratio taps_per_phase =
     (let total_taps = ratio * taps_per_phase in
      if total_taps < - (2 ^ 31) \<or> 2 ^ 31 \<le> total_taps then None
      else if total_taps < 0 then None
      else Some \<lparr>rs_ratio = ratio, rs_taps_per_phase = taps_per_phase,
                 rs_total_taps = total_taps,
                 rs_coeffs = map (design ratio total_taps) [0..<nat total_taps],
                 rs_history = replicate (nat total_taps) 0,
                 rs_history_pos = 0\<rparr>)"

text \<open>\<^verbatim>\<open>apply_filter\<close>: the loop over \<open>i = 0, ..., total_taps_ - 1\<close>.\<close>

fun apply_filter_loop :: "'a::{zero,plus,times} Resampler \<Rightarrow> nat list \<Rightarrow> 'a \<Rightarrow> 'a option" where
  "apply_filter_loop r [] sum_f = Some sum_f"
| "apply_filter_loop r (i # js) sum_f =
     (if size_t_of_int (rs_total_taps r) = 0 then None
      else
        (let idx = size_t_add (rs_history_pos r) i mod size_t_of_int (rs_total_taps r) in
         if idx < length (rs_history r) \<and> i < length (rs_coeffs r)
         then apply_filter_loop r js (sum_f + rs_history r ! idx * rs_coeffs r ! i)
         else None))"

definition apply_filter :: "'a::{zero,plus,times} Resampler \<Rightarrow> 'a option" where
  "apply_filter r = apply_filter_loop r [0..<nat (rs_total_taps r)] 0"

text \<open>
  The two statements that put a sample into the circular history:
  \<^verbatim>\<open>history_[history_pos_] = sample; history_pos_ = (history_pos_ + 1) % total_taps_;\<close>
\<close>

definition push_sample :: "'a \<Rightarrow> 'a Resampler \<Rightarrow> 'a Resampler option" where
  "push_sample x r =
     (if length (rs_history r) \<le> rs_history_pos r then None
      else if size_t_of_int (rs_total_taps r) = 0 then None
      else Some (r\<lparr>rs_history := (rs_history r)[rs_history_pos r := x],
                   rs_history_pos :=
                     size_t_add (rs_history_pos r) 1 mod size_t_of_int (rs_total_taps r)\<rparr>))"

text \<open>
  \<^verbatim>\<open>decimate\<close>: the loop from index \<open>i\<close> over the rest of the input, with the outputs
  written so far. The result is the output sequence (its length is the value the
  source returns) and the state left behind. The index stays below \<^verbatim>\<open>input_count\<close>,
  so \<open>i + 1\<close> does not wrap; \<^verbatim>\<open>ratio_\<close> is converted to \<^verbatim>\<open>size_t\<close> for the remainder.
\<close>

fun decimate_loop ::
  "'a::{zero,plus,times} Resampler \<Rightarrow> nat \<Rightarrow> 'a list \<Rightarrow> 'a list \<Rightarrow> ('a list \<times> 'a Resampler) option" where
  "decimate_loop r i [] out = Some (out, r)"
| "decimate_loop r i (x # xs) out =
     (case push_sample x r of
        None \<Rightarrow> None
      | Some r1 \<Rightarrow>
          (if size_t_of_int (rs_ratio r1) = 0 then None
           else if (i + 1) mod size_t_of_int (rs_ratio r1) = 0
           then (case apply_filter r1 of
                   None \<Rightarrow> None
                 | Some y \<Rightarrow> decimate_loop r1 (i + 1) xs (out @ [y]))
           else decimate_loop r1 (i + 1) xs out))"

definition decimate :: "'a::{zero,plus,times} Resampler \<Rightarrow> 'a list \<Rightarrow> ('a list \<times> 'a Resampler) option" where
  "decimate r input = decimate_loop r 0 input []"

text \<open>\<^verbatim>\<open>interpolate\<close>: the inner loop over the phases of one input sample, and the outer loop.\<close>

fun interpolate_phases ::
  "(int \<Rightarrow> 'a) \<Rightarrow> 'a::{zero,plus,times} Resampler \<Rightarrow> 'a \<Rightarrow> nat list \<Rightarrow> 'a list
     \<Rightarrow> ('a list \<times> 'a Resampler) option" where
  "interpolate_phases to_float r x [] out = Some (out, r)"
| "interpolate_phases to_float r x (phase # ps) out =
     (let sample = (if phase = 0 then x * to_float (rs_ratio r) else 0) in
      case push_sample sample r of
        None \<Rightarrow> None
      | Some r1 \<Rightarrow>
          (case apply_filter r1 of
             None \<Rightarrow> None
           | Some y \<Rightarrow> interpolate_phases to_float r1 x ps (out @ [y])))"

fun interpolate_loop ::
  "(int \<Rightarrow> 'a) \<Rightarrow> 'a::{zero,plus,times} Resampler \<Rightarrow> 'a list \<Rightarrow> 'a list
     \<Rightarrow> ('a list \<times> 'a Resampler) option" where
  "interpolate_loop to_float r [] out = Some (out, r)"
| "interpolate_loop to_float r (x # xs) out =
     (case interpolate_phases to_float r x [0..<nat (rs_ratio r)] out of
        None \<Rightarrow> None
      | Some (out1, r1) \<Rightarrow> interpolate_loop to_float r1 xs out1)"

definition interpolate ::
  "(int \<Rightarrow> 'a) \<Rightarrow> 'a::{zero,plus,times} Resampler \<Rightarrow> 'a list \<Rightarrow> ('a list \<times> 'a Resampler) option" where
  "interpolate to_float r input = interpolate_loop to_float r input []"

text \<open>\<^verbatim>\<open>reset\<close>: \<^verbatim>\<open>std::fill\<close> over the history, position 0.\<close>

definition reset :: "'a::zero Resampler \<Rightarrow> 'a Resampler" where
  "reset r = r\<lparr>rs_history := map (\<lambda>_. 0) (rs_history r), rs_history_pos := 0\<rparr>"

text \<open>
  A well-formed resampler: ratio and taps per phase at least 1, their product in the
  range of \<^verbatim>\<open>int\<close>, both vectors of that length, and the position inside the history.
\<close>

definition Resampler_inv :: "'a Resampler \<Rightarrow> bool" where
  "Resampler_inv r \<longleftrightarrow>
     1 \<le> rs_ratio r \<and> 1 \<le> rs_taps_per_phase r
     \<and> rs_total_taps r = rs_ratio r * rs_taps_per_phase r
     \<and> rs_total_taps r < 2 ^ 31
     \<and> length (rs_coeffs r) = nat (rs_total_taps r)
     \<and> length (rs_history r) = nat (rs_total_taps r)
     \<and> rs_history_pos r < nat (rs_total_taps r)"

text \<open>
  The states a resampler can be in: the one the constructor leaves, and any state that
  a call of \<^verbatim>\<open>decimate\<close>, \<^verbatim>\<open>interpolate\<close> or \<^verbatim>\<open>reset\<close> leaves when made in such a state.
\<close>

inductive Resampler_reachable ::
  "(int \<Rightarrow> 'a) \<Rightarrow> 'a::{zero,plus,times} Resampler \<Rightarrow> 'a Resampler \<Rightarrow> bool"
  for to_float :: "int \<Rightarrow> 'a" and r0 :: "'a Resampler" where
  constructed: "Resampler_reachable to_float r0 r0"
| after_decimate:
    "Resampler_reachable to_float r0 r \<Longrightarrow> decimate r input = Some (out, r')
       \<Longrightarrow> Resampler_reachable to_float r0 r'"
| after_interpolate:
    "Resampler_reachable to_float r0 r \<Longrightarrow> interpolate to_float r input = Some (out, r')
       \<Longrightarrow> Resampler_reachable to_float r0 r'"
| after_reset:
    "Resampler_reachable to_float r0 r \<Longrightarrow> Resampler_reachable to_float r0 (reset r)"

text \<open>What no operation of a resampler changes after construction.\<close>

definition Resampler_config :: "'a Resampler \<Rightarrow> int \<times> int \<times> int \<times> 'a list \<times> nat" where
  "Resampler_config r =
     (rs_ratio r, rs_taps_per_phase r, rs_total_taps r, rs_coeffs r, length (rs_history r))"




subsection \<open>Float values and \<^verbatim>\<open>design_filter\<close>\<close>

text \<open>
  A value of \<^verbatim>\<open>float\<close> or \<^verbatim>\<open>double\<close>: a finite number, an infinity of either sign,
  or NaN. The rules that involve an infinity, NaN or a zero divisor are those of IEEE 754.
  A finite result is the exact real number: rounding, overflow and the sign of zero are
  not modelled, so a zero divisor counts as positive.
\<close>

datatype float_value = Fin real | PInf | NInf | NaN

definition float_inf :: "bool \<Rightarrow> float_value" where
  "float_inf negative = (if negative then NInf else PInf)"

fun float_neg :: "float_value \<Rightarrow> float_value" where
  "float_neg (Fin a) = Fin (- a)"
| "float_neg PInf = NInf"
| "float_neg NInf = PInf"
| "float_neg NaN = NaN"

fun float_add :: "float_value \<Rightarrow> float_value \<Rightarrow> float_value" where
  "float_add NaN y = NaN"
| "float_add x NaN = NaN"
| "float_add (Fin a) (Fin b) = Fin (a + b)"
| "float_add (Fin a) PInf = PInf"
| "float_add (Fin a) NInf = NInf"
| "float_add PInf (Fin b) = PInf"
| "float_add NInf (Fin b) = NInf"
| "float_add PInf PInf = PInf"
| "float_add NInf NInf = NInf"
| "float_add PInf NInf = NaN"
| "float_add NInf PInf = NaN"

definition float_sub :: "float_value \<Rightarrow> float_value \<Rightarrow> float_value" where
  "float_sub x y = float_add x (float_neg y)"

fun float_mul :: "float_value \<Rightarrow> float_value \<Rightarrow> float_value" where
  "float_mul NaN y = NaN"
| "float_mul x NaN = NaN"
| "float_mul (Fin a) (Fin b) = Fin (a * b)"
| "float_mul (Fin a) PInf = (if a = 0 then NaN else float_inf (a < 0))"
| "float_mul (Fin a) NInf = (if a = 0 then NaN else float_inf (0 < a))"
| "float_mul PInf (Fin b) = (if b = 0 then NaN else float_inf (b < 0))"
| "float_mul NInf (Fin b) = (if b = 0 then NaN else float_inf (0 < b))"
| "float_mul PInf PInf = PInf"
| "float_mul NInf NInf = PInf"
| "float_mul PInf NInf = NInf"
| "float_mul NInf PInf = NInf"

fun float_div :: "float_value \<Rightarrow> float_value \<Rightarrow> float_value" where
  "float_div NaN y = NaN"
| "float_div x NaN = NaN"
| "float_div (Fin a) (Fin b) =
     (if b \<noteq> 0 then Fin (a / b) else if a = 0 then NaN else float_inf (a < 0))"
| "float_div (Fin a) PInf = Fin 0"
| "float_div (Fin a) NInf = Fin 0"
| "float_div PInf (Fin b) = float_inf (b < 0)"
| "float_div NInf (Fin b) = float_inf (0 \<le> b)"
| "float_div PInf PInf = NaN"
| "float_div NInf NInf = NaN"
| "float_div PInf NInf = NaN"
| "float_div NInf PInf = NaN"

text \<open>\<^verbatim>\<open>std::sin\<close>, \<^verbatim>\<open>std::cos\<close> and \<^verbatim>\<open>std::abs\<close>; a comparison with NaN is false.\<close>

fun float_sin :: "float_value \<Rightarrow> float_value" where
  "float_sin (Fin a) = Fin (sin a)"
| "float_sin x = NaN"

fun float_cos :: "float_value \<Rightarrow> float_value" where
  "float_cos (Fin a) = Fin (cos a)"
| "float_cos x = NaN"

fun float_abs :: "float_value \<Rightarrow> float_value" where
  "float_abs (Fin a) = Fin \<bar>a\<bar>"
| "float_abs PInf = PInf"
| "float_abs NInf = PInf"
| "float_abs NaN = NaN"

fun float_less :: "float_value \<Rightarrow> float_value \<Rightarrow> bool" where
  "float_less NaN y = False"
| "float_less x NaN = False"
| "float_less (Fin a) (Fin b) = (a < b)"
| "float_less (Fin a) PInf = True"
| "float_less (Fin a) NInf = False"
| "float_less PInf y = False"
| "float_less NInf (Fin b) = True"
| "float_less NInf PInf = True"
| "float_less NInf NInf = False"

fun float_finite :: "float_value \<Rightarrow> bool" where
  "float_finite (Fin a) = True"
| "float_finite x = False"

text \<open>The conversion of an \<^verbatim>\<open>int\<close>.\<close>

definition float_of_int :: "int \<Rightarrow> float_value" where
  "float_of_int i = Fin (of_int i)"

text \<open>The zero, sum and product that the resampler uses, at float values.\<close>

instantiation float_value :: "{zero,plus,times}"
begin

definition zero_float_value :: float_value where
  "zero_float_value = Fin 0"

definition plus_float_value :: "float_value \<Rightarrow> float_value \<Rightarrow> float_value" where
  "plus_float_value = float_add"

definition times_float_value :: "float_value \<Rightarrow> float_value \<Rightarrow> float_value" where
  "times_float_value = float_mul"

instance ..

end

text \<open>
  \<^verbatim>\<open>design_filter\<close>. \<open>design_tap\<close> is the body of the first loop at index \<open>i\<close>, the
  value stored in \<^verbatim>\<open>coeffs_[i]\<close>: \<^verbatim>\<open>fc = 0.45f / ratio_\<close>, \<^verbatim>\<open>M = total_taps_ - 1\<close>,
  \<^verbatim>\<open>n = static_cast<float>(i) - M / 2.0f\<close>, the sinc with its test
  \<^verbatim>\<open>std::abs(n) < 1e-6f\<close>, and the Hamming window
  \<^verbatim>\<open>0.54f - 0.46f * std::cos(2.0f * M_PI * i / M)\<close>. \<open>design_sum\<close> is \<^verbatim>\<open>sum\<close> after
  that loop, and \<open>design_filter\<close> the coefficient after the second loop, \<^verbatim>\<open>c /= sum\<close>.
\<close>

definition design_tap :: "int \<Rightarrow> int \<Rightarrow> nat \<Rightarrow> float_value" where
  "design_tap ratio total_taps i =
     (let fc = float_div (Fin (45 / 100)) (float_of_int ratio);
          M = total_taps - 1;
          n = float_sub (float_of_int (int i)) (float_div (float_of_int M) (Fin 2));
          sinc = (if float_less (float_abs n) (Fin (1 / 1000000)) then Fin 2 * fc
                  else float_div (float_sin (Fin 2 * Fin pi * fc * n)) (Fin pi * n));
          window = float_sub (Fin (54 / 100))
                     (Fin (46 / 100)
                        * float_cos (float_div (Fin 2 * Fin pi * float_of_int (int i))
                                       (float_of_int M)))
      in sinc * window)"

definition design_sum :: "int \<Rightarrow> int \<Rightarrow> float_value" where
  "design_sum ratio total_taps =
     foldl (+) 0 (map (design_tap ratio total_taps) [0..<nat total_taps])"

definition design_filter :: "int \<Rightarrow> int \<Rightarrow> nat \<Rightarrow> float_value" where
  "design_filter ratio total_taps i =
     float_div (design_tap ratio total_taps i) (design_sum ratio total_taps)"

section \<open>Reading a frequency field back\<close>

text \<open>
  The Kenwood codec has no decoder for the frequency field. The reading of the field
  against which the encoder is checked is the usual one: the number that a string of
  decimal digits denotes.
\<close>

definition digit_value :: "char \<Rightarrow> nat" where
  "digit_value c = of_char c - 48"

definition decimal_value :: "string \<Rightarrow> nat" where
  "decimal_value s = foldl (\<lambda>acc c. 10 * acc + digit_value c) 0 s"

section \<open>Evaluation lemmas\<close>












section \<open>The end-to-end scenario\<close>




section \<open>Frequency encodings\<close>

subsection \<open>Icom: two decimal digits a byte\<close>

lemma byte_lt_10_cases:
  "(x::byte) < 10 \<Longrightarrow> x = 0 \<or> x = 1 \<or> x = 2 \<or> x = 3 \<or> x = 4 \<or> x = 5 \<or> x = 6 \<or> x = 7 \<or> x = 8 \<or> x = 9"
  by unat_arith

lemma bcd_byte_lo: "(l::byte) < 10 \<Longrightarrow> h < 10 \<Longrightarrow> (push_bit 4 h OR l) AND 0x0F = l"
  by (drule byte_lt_10_cases, drule byte_lt_10_cases) (elim disjE; simp)

lemma bcd_byte_hi: "(l::byte) < 10 \<Longrightarrow> h < 10 \<Longrightarrow> drop_bit 4 (push_bit 4 h OR l) AND 0x0F = h"
  by (drule byte_lt_10_cases, drule byte_lt_10_cases) (elim disjE; simp)

lemma unat_digit_byte: "unat (ucast ((f::32 word) mod 10) :: byte) = unat f mod 10"
proof -
  have "unat (f mod 10) = unat f mod 10" by (simp add: unat_mod_distrib)
  moreover have "unat f mod 10 < 256" by (rule less_trans [of _ 10]) simp_all
  ultimately show ?thesis by (simp add: unsigned_ucast_eq take_bit_nat_eq_self)
qed

lemma digit_byte_lt: "(ucast ((f::32 word) mod 10) :: byte) < 10"
  by (simp add: word_less_nat_alt unat_digit_byte)

lemma digit_byte_back: "(ucast (ucast ((f::32 word) mod 10) :: byte) :: 32 word) = of_nat (unat f mod 10)"
proof -
  have "unat f mod 10 < 2 ^ 8" by (rule less_trans [of _ 10]) simp_all
  then have "unat (ucast (ucast (f mod 10) :: byte) :: 32 word) = unat f mod 10"
    by (simp add: unsigned_ucast_eq unsigned_take_bit_eq unat_mod_distrib take_bit_nat_eq_self)
  moreover have "unat (of_nat (unat f mod 10) :: 32 word) = unat f mod 10"
    by (simp add: unat_of_nat)
  ultimately show ?thesis by (simp add: word_unat_eq_iff)
qed

lemma unat_div10: "unat ((f::32 word) div 10) = unat f div 10"
  by (simp add: unat_div_distrib)

lemma two_digits_nat: "(n::nat) mod (100 * m) = n mod 10 + 10 * (n div 10 mod 10) + 100 * (n div 100 mod m)"
proof -
  have "n mod (100 * m) = n mod 100 + 100 * (n div 100 mod m)"
    by (simp add: mod_mult2_eq)
  moreover have "n mod 100 = n mod 10 + 10 * (n div 10 mod 10)"
    using mod_mult2_eq [of n 10 10] by simp
  ultimately show ?thesis by simp
qed

lemma length_freq_to_bcd: "length (freq_to_bcd f len) = len"
  by (induction len arbitrary: f) (simp_all add: Let_def)

lemma bcd_to_freq_loop_freq_to_bcd:
  "bcd_to_freq_loop (freq_to_bcd f len) acc mult = acc + mult * of_nat (unat f mod 100 ^ len)"
proof (induction len arbitrary: f acc mult)
  case 0
  show ?case by simp
next
  case (Suc len)
  let ?lo = "ucast (f mod 10) :: byte"
  let ?hi = "ucast (f div 10 mod 10) :: byte"
  let ?b = "push_bit 4 ?hi OR ?lo"
  have lo: "?b AND 0x0F = ?lo" by (rule bcd_byte_lo) (rule digit_byte_lt)+
  have hi: "drop_bit 4 ?b AND 0x0F = ?hi" by (rule bcd_byte_hi) (rule digit_byte_lt)+
  have n: "unat (f div 10 div 10) = unat f div 100"
    by (simp add: unat_div10 div_mult2_eq)
  have "bcd_to_freq_loop (freq_to_bcd f (Suc len)) acc mult
      = bcd_to_freq_loop (freq_to_bcd (f div 10 div 10) len)
          (acc + ucast ?lo * mult + ucast ?hi * (mult * 10)) (mult * 10 * 10)"
    by (simp only: freq_to_bcd.simps bcd_to_freq_loop.simps Let_def lo hi)
  also have "\<dots> = acc + ucast ?lo * mult + ucast ?hi * (mult * 10)
      + mult * 10 * 10 * of_nat (unat f div 100 mod 100 ^ len)"
    by (simp add: Suc.IH n)
  also have "\<dots> = acc + mult * of_nat (unat f mod 100 ^ Suc len)"
    by (simp add: digit_byte_back unat_div10 two_digits_nat [of "unat f" "100 ^ len"] algebra_simps)
  finally show ?case .
qed

lemma bcd_to_freq_freq_to_bcd_5: "bcd_to_freq (freq_to_bcd f 5) 5 = Some f"
proof -
  have "unat f < 2 ^ 32" using unsigned_less [of f] by simp
  then have "unat f mod 100 ^ 5 = unat f" by simp
  then show ?thesis
    by (simp add: bcd_to_freq_def length_freq_to_bcd bcd_to_freq_loop_freq_to_bcd)
qed

subsection \<open>Yaesu: eight digits of the frequency in tens of hertz\<close>

lemma word32_lt_10_cases:
  "(x::32 word) < 10 \<Longrightarrow> x = 0 \<or> x = 1 \<or> x = 2 \<or> x = 3 \<or> x = 4 \<or> x = 5 \<or> x = 6 \<or> x = 7 \<or> x = 8 \<or> x = 9"
  by unat_arith

lemma packed_byte_hi:
  "(a::32 word) < 10 \<Longrightarrow> b < 10 \<Longrightarrow>
     (ucast (drop_bit 4 (ucast (push_bit 4 a OR b) :: byte) AND 0x0F) :: 32 word) = a"
  by (drule word32_lt_10_cases, drule word32_lt_10_cases) (elim disjE; simp)

lemma packed_byte_lo:
  "(a::32 word) < 10 \<Longrightarrow> b < 10 \<Longrightarrow>
     (ucast ((ucast (push_bit 4 a OR b) :: byte) AND 0x0F) :: 32 word) = b"
  by (drule word32_lt_10_cases, drule word32_lt_10_cases) (elim disjE; simp)

lemma word32_mod10_lt: "(x::32 word) mod 10 < 10"
  by (simp add: word_less_nat_alt unat_mod_distrib)

lemma word32_digit: "((x::32 word) div k mod 10) = of_nat (unat x div unat k mod 10)"
proof -
  have "unat x div unat k mod 10 < 2 ^ 32" by (rule less_trans [of _ 10]) simp_all
  then have "unat (of_nat (unat x div unat k mod 10) :: 32 word) = unat x div unat k mod 10"
    by (simp add: unat_of_nat)
  then show ?thesis by (simp add: word_unat_eq_iff unat_mod_distrib unat_div_distrib)
qed

lemma digit_step: "(n::nat) div k mod (10 * m) = n div k mod 10 + 10 * (n div (k * 10) mod m)"
  by (simp add: mod_mult2_eq div_mult2_eq)

lemma eight_digits_nat:
  assumes "(n::nat) < 100000000"
  shows "n div 10000000 mod 10 * 10000000 + n div 1000000 mod 10 * 1000000
       + n div 100000 mod 10 * 100000 + n div 10000 mod 10 * 10000
       + n div 1000 mod 10 * 1000 + n div 100 mod 10 * 100 + n div 10 mod 10 * 10 + n mod 10 = n"
proof -
  have e1: "n mod 100000000 = n mod 10 + 10 * (n div 10 mod 10000000)"
    using digit_step [of n 1 10000000] by simp
  have e2: "n div 10 mod 10000000 = n div 10 mod 10 + 10 * (n div 100 mod 1000000)"
    using digit_step [of n 10 1000000] by simp
  have e3: "n div 100 mod 1000000 = n div 100 mod 10 + 10 * (n div 1000 mod 100000)"
    using digit_step [of n 100 100000] by simp
  have e4: "n div 1000 mod 100000 = n div 1000 mod 10 + 10 * (n div 10000 mod 10000)"
    using digit_step [of n 1000 10000] by simp
  have e5: "n div 10000 mod 10000 = n div 10000 mod 10 + 10 * (n div 100000 mod 1000)"
    using digit_step [of n 10000 1000] by simp
  have e6: "n div 100000 mod 1000 = n div 100000 mod 10 + 10 * (n div 1000000 mod 100)"
    using digit_step [of n 100000 100] by simp
  have e7: "n div 1000000 mod 100 = n div 1000000 mod 10 + 10 * (n div 10000000 mod 10)"
    using digit_step [of n 1000000 10] by simp
  have "n mod 100000000 = n" using assms by simp
  with e1 e2 e3 e4 e5 e6 e7 show ?thesis by linarith
qed


lemma word32_digit0: "((x::32 word) mod 10) = of_nat (unat x mod 10)"
  using word32_digit [of x 1] by simp

lemma packed_bcd_to_freq_freq_to_packed_bcd:
  assumes "f < (1000000000 :: 32 word)"
  shows "packed_bcd_to_freq (freq_to_packed_bcd f) = Some (10 * (f div 10))"
proof -
  define g where "g = f div 10"
  define n where "n = unat g"
  have "unat f < 1000000000" using assms by (simp add: word_less_nat_alt)
  then have n: "n < 100000000" by (simp add: n_def g_def unat_div_distrib)
  note lt = word32_mod10_lt
  have "packed_bcd_to_freq (freq_to_packed_bcd f)
      = Some ((g div 10000000 mod 10 * 10000000 + g div 1000000 mod 10 * 1000000
          + g div 100000 mod 10 * 100000 + g div 10000 mod 10 * 10000
          + g div 1000 mod 10 * 1000 + g div 100 mod 10 * 100
          + g div 10 mod 10 * 10 + g mod 10) * 10)"
    unfolding packed_bcd_to_freq_def freq_to_packed_bcd_def Let_def g_def [symmetric]
    by (simp add: packed_byte_hi [OF lt lt] packed_byte_lo [OF lt lt])
  also have "g div 10000000 mod 10 * 10000000 + g div 1000000 mod 10 * 1000000
          + g div 100000 mod 10 * 100000 + g div 10000 mod 10 * 10000
          + g div 1000 mod 10 * 1000 + g div 100 mod 10 * 100
          + g div 10 mod 10 * 10 + g mod 10
      = of_nat (n div 10000000 mod 10 * 10000000 + n div 1000000 mod 10 * 1000000
       + n div 100000 mod 10 * 100000 + n div 10000 mod 10 * 10000
       + n div 1000 mod 10 * 1000 + n div 100 mod 10 * 100 + n div 10 mod 10 * 10 + n mod 10)"
    by (simp add: word32_digit [of g] word32_digit0 [of g] n_def)
  also have "\<dots> = g" by (simp only: eight_digits_nat [OF n]) (simp add: n_def)
  finally show ?thesis by (simp add: g_def)
qed

lemma word32_mult_div: "(f::32 word) mod 10 = 0 \<Longrightarrow> 10 * (f div 10) = f"
  using word_mod_div_equality [of f 10] by (simp add: mult.commute)

subsection \<open>Kenwood: eleven ASCII digits\<close>

lemma digit_char_value: "d < 10 \<Longrightarrow> digit_value (''0123456789'' ! d) = d"
proof -
  assume "d < 10"
  then have "d = 0 \<or> d = 1 \<or> d = 2 \<or> d = 3 \<or> d = 4 \<or> d = 5 \<or> d = 6 \<or> d = 7 \<or> d = 8 \<or> d = 9"
    by arith
  then show ?thesis by (elim disjE) (simp_all add: digit_value_def)
qed

lemma decimal_value_snoc: "decimal_value (s @ [c]) = 10 * decimal_value s + digit_value c"
  by (simp add: decimal_value_def)

lemma decimal_value_dec_string: "decimal_value (dec_string n) = n"
proof (induction n rule: dec_string.induct)
  case (1 n)
  show ?case
  proof (cases "n < 10")
    case True
    then show ?thesis
      using decimal_value_snoc [of "[]" "''0123456789'' ! n"]
      by (simp add: dec_string.simps [of n] digit_char_value decimal_value_def)
  next
    case False
    then show ?thesis
      using "1.IH" by (simp add: dec_string.simps [of n] decimal_value_snoc digit_char_value)
  qed
qed

lemma decimal_value_zeros: "decimal_value (replicate k CHR ''0'' @ s) = decimal_value s"
proof -
  have "foldl (\<lambda>acc c. 10 * acc + digit_value c) 0 (replicate k CHR ''0'') = 0"
    by (induction k) (simp_all add: digit_value_def)
  then show ?thesis by (simp add: decimal_value_def)
qed

lemma length_dec_string: "0 < k \<Longrightarrow> n < 10 ^ k \<Longrightarrow> length (dec_string n) \<le> k"
proof (induction n arbitrary: k rule: dec_string.induct)
  case (1 n)
  show ?case
  proof (cases "n < 10")
    case True
    with "1.prems" show ?thesis by (simp add: dec_string.simps [of n])
  next
    case False
    with "1.prems" obtain j where k: "k = Suc j" and j: "0 < j"
      by (cases k; cases "k - 1") auto
    from "1.prems" k have "n div 10 < 10 ^ j" by (simp add: less_mult_imp_div_less mult.commute)
    with "1.IH" [OF False j] have "length (dec_string (n div 10)) \<le> j" .
    with False k show ?thesis by (simp add: dec_string.simps [of n])
  qed
qed

lemma length_fmt_u_11: "n < 2 ^ 32 \<Longrightarrow> length (fmt_u 11 n) = 11"
proof -
  assume "n < 2 ^ 32"
  then have "n < 10 ^ 10" by simp
  then have "length (dec_string n) \<le> 10" by (intro length_dec_string) simp_all
  then show ?thesis by (simp add: fmt_u_def pad_zeros_def)
qed

lemma build_freq_command_field:
  "build_freq_command vfo f = CHR ''F'' # vfo # fmt_u 11 (unat f) @ '';''
   \<and> length (fmt_u 11 (unat f)) = 11
   \<and> decimal_value (take 11 (drop 2 (build_freq_command vfo f))) = unat f"
proof -
  have n: "unat f < 2 ^ 32" using unsigned_less [of f] by simp
  have l: "length (fmt_u 11 (unat f)) = 11" by (rule length_fmt_u_11 [OF n])
  have b: "build_freq_command vfo f = CHR ''F'' # vfo # fmt_u 11 (unat f) @ '';''"
    by (simp add: build_freq_command_def snprintf_def l)
  have "decimal_value (fmt_u 11 (unat f)) = unat f"
    by (simp add: fmt_u_def pad_zeros_def decimal_value_zeros decimal_value_dec_string)
  with l b show ?thesis by simp
qed

lemma set_dec_string: "set (dec_string n) \<subseteq> set ''0123456789''"
proof (induction n rule: dec_string.induct)
  case (1 n)
  have d: "\<And>d. d < 10 \<Longrightarrow> ''0123456789'' ! d \<in> set ''0123456789''"
    by (rule nth_mem) simp
  show ?case
  proof (cases "n < 10")
    case True
    then show ?thesis using d [of n] by (simp add: dec_string.simps [of n])
  next
    case False
    then show ?thesis
      using "1.IH" d [of "n mod 10"] by (simp add: dec_string.simps [of n])
  qed
qed

lemma set_fmt_u: "set (fmt_u w n) \<subseteq> set ''0123456789''"
  using set_dec_string [of n] by (auto simp: fmt_u_def pad_zeros_def)

text \<open>
  Claim C2. Decoding an encoded frequency gives the frequency back. Icom: for every
  32-bit \<open>f\<close>, \<^verbatim>\<open>bcd_to_freq(freq_to_bcd(f, 5), 5)\<close> is \<open>f\<close>. Yaesu: for every \<open>g\<close>
  below \<open>10\<^sup>9\<close> Hz, \<^verbatim>\<open>packed_bcd_to_freq(freq_to_packed_bcd(g))\<close> is \<open>g\<close> with its last
  decimal digit cut, \<open>10 * (g div 10)\<close>, hence \<open>g\<close> itself when \<open>g\<close> is a multiple
  of 10. Kenwood: for every 32-bit \<open>f\<close> the frequency command is \<^verbatim>\<open>F\<close>, the VFO letter,
  a field of exactly eleven decimal digits and \<^verbatim>\<open>;\<close>, and the field read as a decimal
  number is \<open>f\<close>.
\<close>

theorem frequency_roundtrip:
  "bcd_to_freq (freq_to_bcd f 5) 5 = Some f
   \<and> (g < 1000000000 \<longrightarrow> packed_bcd_to_freq (freq_to_packed_bcd g) = Some (10 * (g div 10)))
   \<and> (g < 1000000000 \<and> g mod 10 = 0 \<longrightarrow> packed_bcd_to_freq (freq_to_packed_bcd g) = Some g)
   \<and> build_freq_command vfo f = CHR ''F'' # vfo # fmt_u 11 (unat f) @ '';''
   \<and> length (fmt_u 11 (unat f)) = 11
   \<and> set (fmt_u 11 (unat f)) \<subseteq> set ''0123456789''
   \<and> decimal_value (take 11 (drop 2 (build_freq_command vfo f))) = unat f"
proof (intro conjI impI)
  show "bcd_to_freq (freq_to_bcd f 5) 5 = Some f"
    by (rule bcd_to_freq_freq_to_bcd_5)
  show "packed_bcd_to_freq (freq_to_packed_bcd g) = Some (10 * (g div 10))"
    if "g < 1000000000"
    using that by (rule packed_bcd_to_freq_freq_to_packed_bcd)
  show "packed_bcd_to_freq (freq_to_packed_bcd g) = Some g"
    if "g < 1000000000 \<and> g mod 10 = 0"
    using that packed_bcd_to_freq_freq_to_packed_bcd [of g] word32_mult_div [of g] by simp
  show "build_freq_command vfo f = CHR ''F'' # vfo # fmt_u 11 (unat f) @ '';''"
    using build_freq_command_field [of vfo f] by blast
  show "length (fmt_u 11 (unat f)) = 11"
    using build_freq_command_field [of vfo f] by blast
  show "set (fmt_u 11 (unat f)) \<subseteq> set ''0123456789''"
    by (rule set_fmt_u)
  show "decimal_value (take 11 (drop 2 (build_freq_command vfo f))) = unat f"
    using build_freq_command_field [of vfo f] by blast
qed

theorem frequency_roundtrip_witness:
  "bcd_to_freq (freq_to_bcd 14250000 5) 5 = Some 14250000
   \<and> (14250005 :: 32 word) < 1000000000
   \<and> packed_bcd_to_freq (freq_to_packed_bcd 14250005) = Some 14250000
   \<and> (14250000 :: 32 word) mod 10 = 0
   \<and> packed_bcd_to_freq (freq_to_packed_bcd 14250000) = Some 14250000
   \<and> decimal_value (take 11 (drop 2 (build_freq_command CHR ''A'' 14250000))) = 14250000"
proof -
  note t1 = frequency_roundtrip [of 14250000 14250005 "CHR ''A''"]
  note t2 = frequency_roundtrip [of 14250000 14250000 "CHR ''A''"]
  have a: "(14250005 :: 32 word) < 1000000000" by simp
  have b: "(14250000 :: 32 word) < 1000000000 \<and> (14250000 :: 32 word) mod 10 = 0" by simp
  have c: "10 * ((14250005 :: 32 word) div 10) = 14250000" by simp
  have d: "unat (14250000 :: 32 word) = 14250000" by simp
  from t1 have "bcd_to_freq (freq_to_bcd 14250000 5) 5 = Some 14250000" by blast
  moreover from t1 a have "packed_bcd_to_freq (freq_to_packed_bcd 14250005)
      = Some (10 * (14250005 div 10))" by blast
  moreover from t2 b have "packed_bcd_to_freq (freq_to_packed_bcd 14250000) = Some 14250000"
    by blast
  moreover from t2 have "decimal_value (take 11 (drop 2 (build_freq_command CHR ''A'' 14250000)))
      = unat (14250000 :: 32 word)" by blast
  ultimately show ?thesis using a b c d by simp
qed

section \<open>The guard of \<^verbatim>\<open>set_channel\<close>\<close>

text \<open>
  Claim C3, as the code has it. In each codec \<^verbatim>\<open>set_channel\<close> returns false, sends
  nothing and leaves the codec as it was unless the codec is ready and its serial
  collaborator was injected (the pointer is not null); a registered send callback does
  not count. When the codec is ready and the serial collaborator is there,
  \<^verbatim>\<open>set_channel\<close> returns true, stores the channel and sends the frequency command
  followed by the mode command, both through the send callback if one is registered and
  both to the serial port otherwise.
\<close>

theorem set_channel_guard:
  "(kw_ready k \<and> kw_serial k = Some p \<longrightarrow>
      Kenwood_set_channel c k =
        (True, k\<lparr>kw_current_channel := c\<rparr>,
         (case kw_send_callback k of
            Some cb \<Rightarrow> [CallbackSend cb (bytes_of (build_freq_command CHR ''A'' (rx_frequency c))),
                        CallbackSend cb (bytes_of (build_mode_command (rx_mode c)))]
          | None \<Rightarrow> [SerialWrite p (bytes_of (build_freq_command CHR ''A'' (rx_frequency c))),
                     SerialWrite p (bytes_of (build_mode_command (rx_mode c)))])))
   \<and> (\<not> kw_ready k \<or> kw_serial k = None \<longrightarrow> Kenwood_set_channel c k = (False, k, []))
   \<and> (civ_ready i \<and> civ_serial i = Some p \<longrightarrow>
      IcomCiv_set_channel c i =
        (True, i\<lparr>civ_current_channel := c\<rparr>,
         (case civ_send_callback i of
            Some cb \<Rightarrow> [CallbackSend cb (build_frame i CivCommand_SET_FREQ (freq_to_bcd (rx_frequency c) 5)),
                        CallbackSend cb (build_frame i CivCommand_SET_MODE [radio_mode_to_civ (rx_mode c)])]
          | None \<Rightarrow> [SerialWrite p (build_frame i CivCommand_SET_FREQ (freq_to_bcd (rx_frequency c) 5)),
                     SerialWrite p (build_frame i CivCommand_SET_MODE [radio_mode_to_civ (rx_mode c)])])))
   \<and> (\<not> civ_ready i \<or> civ_serial i = None \<longrightarrow> IcomCiv_set_channel c i = (False, i, []))
   \<and> (ys_ready y \<and> ys_serial y = Some p \<longrightarrow>
      YaesuCat_set_channel c y =
        (True, y\<lparr>ys_current_channel := c\<rparr>,
         (case ys_send_callback y of
            Some cb \<Rightarrow> [CallbackSend cb (freq_to_packed_bcd (rx_frequency c) @ [YaesuCommand_SET_FREQ]),
                        CallbackSend cb [radio_mode_to_yaesu (rx_mode c), 0, 0, 0, YaesuCommand_SET_MODE]]
          | None \<Rightarrow> [SerialWrite p (freq_to_packed_bcd (rx_frequency c) @ [YaesuCommand_SET_FREQ]),
                     SerialWrite p [radio_mode_to_yaesu (rx_mode c), 0, 0, 0, YaesuCommand_SET_MODE]])))
   \<and> (\<not> ys_ready y \<or> ys_serial y = None \<longrightarrow> YaesuCat_set_channel c y = (False, y, []))"
proof (intro conjI impI)
  show "Kenwood_set_channel c k = (False, k, [])" if "\<not> kw_ready k \<or> kw_serial k = None"
    using that by (auto simp: Kenwood_set_channel_def)
  show "IcomCiv_set_channel c i = (False, i, [])" if "\<not> civ_ready i \<or> civ_serial i = None"
    using that by (auto simp: IcomCiv_set_channel_def)
  show "YaesuCat_set_channel c y = (False, y, [])" if "\<not> ys_ready y \<or> ys_serial y = None"
    using that by (auto simp: YaesuCat_set_channel_def)
next
  assume "kw_ready k \<and> kw_serial k = Some p"
  then show "Kenwood_set_channel c k =
        (True, k\<lparr>kw_current_channel := c\<rparr>,
         (case kw_send_callback k of
            Some cb \<Rightarrow> [CallbackSend cb (bytes_of (build_freq_command CHR ''A'' (rx_frequency c))),
                        CallbackSend cb (bytes_of (build_mode_command (rx_mode c)))]
          | None \<Rightarrow> [SerialWrite p (bytes_of (build_freq_command CHR ''A'' (rx_frequency c))),
                     SerialWrite p (bytes_of (build_mode_command (rx_mode c)))]))"
    by (simp add: Kenwood_set_channel_def Kenwood_send_command_def split: option.splits)
next
  assume "civ_ready i \<and> civ_serial i = Some p"
  then show "IcomCiv_set_channel c i =
        (True, i\<lparr>civ_current_channel := c\<rparr>,
         (case civ_send_callback i of
            Some cb \<Rightarrow> [CallbackSend cb (build_frame i CivCommand_SET_FREQ (freq_to_bcd (rx_frequency c) 5)),
                        CallbackSend cb (build_frame i CivCommand_SET_MODE [radio_mode_to_civ (rx_mode c)])]
          | None \<Rightarrow> [SerialWrite p (build_frame i CivCommand_SET_FREQ (freq_to_bcd (rx_frequency c) 5)),
                     SerialWrite p (build_frame i CivCommand_SET_MODE [radio_mode_to_civ (rx_mode c)])]))"
    by (simp add: IcomCiv_set_channel_def send_frame_def split: option.splits)
next
  have l: "length (freq_to_packed_bcd (rx_frequency c)) = 4"
    by (simp add: freq_to_packed_bcd_def Let_def)
  then have e: "[freq_to_packed_bcd (rx_frequency c) ! 0, freq_to_packed_bcd (rx_frequency c) ! 1,
      freq_to_packed_bcd (rx_frequency c) ! 2, freq_to_packed_bcd (rx_frequency c) ! 3]
    = freq_to_packed_bcd (rx_frequency c)"
    by (simp add: freq_to_packed_bcd_def Let_def)
  assume "ys_ready y \<and> ys_serial y = Some p"
  then show "YaesuCat_set_channel c y =
        (True, y\<lparr>ys_current_channel := c\<rparr>,
         (case ys_send_callback y of
            Some cb \<Rightarrow> [CallbackSend cb (freq_to_packed_bcd (rx_frequency c) @ [YaesuCommand_SET_FREQ]),
                        CallbackSend cb [radio_mode_to_yaesu (rx_mode c), 0, 0, 0, YaesuCommand_SET_MODE]]
          | None \<Rightarrow> [SerialWrite p (freq_to_packed_bcd (rx_frequency c) @ [YaesuCommand_SET_FREQ]),
                     SerialWrite p [radio_mode_to_yaesu (rx_mode c), 0, 0, 0, YaesuCommand_SET_MODE]]))"
    using e by (simp add: YaesuCat_set_channel_def YaesuCat_send_command_def build_command_def Let_def
        split: option.splits)
qed

theorem set_channel_guard_witness:
  "kw_ready ((Kenwood_new (Some 0))\<lparr>kw_ready := True, kw_send_callback := Some 7\<rparr>)
   \<and> kw_serial ((Kenwood_new (Some 0))\<lparr>kw_ready := True, kw_send_callback := Some 7\<rparr>) = Some 0
   \<and> fst (Kenwood_set_channel Channel_default
        ((Kenwood_new (Some 0))\<lparr>kw_ready := True, kw_send_callback := Some 7\<rparr>))
   \<and> snd (snd (Kenwood_set_channel Channel_default
        ((Kenwood_new (Some 0))\<lparr>kw_ready := True, kw_send_callback := Some 7\<rparr>)))
       = [CallbackSend 7 (bytes_of (build_freq_command CHR ''A'' 0)),
          CallbackSend 7 (bytes_of (build_mode_command USB))]
   \<and> civ_ready ((IcomCiv_new (Some 0) 0x94)\<lparr>civ_ready := True\<rparr>)
   \<and> civ_serial ((IcomCiv_new (Some 0) 0x94)\<lparr>civ_ready := True\<rparr>) = Some 0
   \<and> fst (IcomCiv_set_channel Channel_default ((IcomCiv_new (Some 0) 0x94)\<lparr>civ_ready := True\<rparr>))
   \<and> ys_ready ((YaesuCat_new (Some 0))\<lparr>ys_ready := True\<rparr>)
   \<and> ys_serial ((YaesuCat_new (Some 0))\<lparr>ys_ready := True\<rparr>) = Some 0
   \<and> fst (YaesuCat_set_channel Channel_default ((YaesuCat_new (Some 0))\<lparr>ys_ready := True\<rparr>))
   \<and> kw_serial ((Kenwood_new None)\<lparr>kw_ready := True\<rparr>) = None
   \<and> Kenwood_set_channel Channel_default ((Kenwood_new None)\<lparr>kw_ready := True\<rparr>)
       = (False, (Kenwood_new None)\<lparr>kw_ready := True\<rparr>, [])
   \<and> \<not> civ_ready (IcomCiv_new (Some 0) 0x94)
   \<and> IcomCiv_set_channel Channel_default (IcomCiv_new (Some 0) 0x94)
       = (False, IcomCiv_new (Some 0) 0x94, [])
   \<and> \<not> ys_ready (YaesuCat_new (Some 0))
   \<and> YaesuCat_set_channel Channel_default (YaesuCat_new (Some 0))
       = (False, YaesuCat_new (Some 0), [])"
  using set_channel_guard
    [of "(Kenwood_new (Some 0))\<lparr>kw_ready := True, kw_send_callback := Some 7\<rparr>" 0
        Channel_default "(IcomCiv_new (Some 0) 0x94)\<lparr>civ_ready := True\<rparr>"
        "(YaesuCat_new (Some 0))\<lparr>ys_ready := True\<rparr>"]
    set_channel_guard
    [of "(Kenwood_new None)\<lparr>kw_ready := True\<rparr>" 0
        Channel_default "IcomCiv_new (Some 0) 0x94" "YaesuCat_new (Some 0)"]
  by (simp add: Kenwood_new_def IcomCiv_new_def YaesuCat_new_def Channel_default_def)

text \<open>
  The claim as written fails: a ready codec built on a null serial pointer that holds a
  registered send callback refuses the channel and sends nothing.
\<close>

theorem set_channel_callback_without_serial_counterexample:
  "Kenwood_is_ready (Kenwood_register_send_callback (Some 7) (snd (Kenwood_initialize (Kenwood_new None))))
   \<and> kw_send_callback (Kenwood_register_send_callback (Some 7) (snd (Kenwood_initialize (Kenwood_new None)))) = Some 7
   \<and> fst (Kenwood_set_channel Channel_default
        (Kenwood_register_send_callback (Some 7) (snd (Kenwood_initialize (Kenwood_new None))))) = False
   \<and> snd (snd (Kenwood_set_channel Channel_default
        (Kenwood_register_send_callback (Some 7) (snd (Kenwood_initialize (Kenwood_new None)))))) = []"
  by (simp add: Kenwood_set_channel_def Kenwood_register_send_callback_def Kenwood_initialize_def
      Kenwood_new_def Kenwood_is_ready_def)

section \<open>Mode tables\<close>

lemmas mode_code_defs =
  KenwoodMode_LSB_def KenwoodMode_USB_def KenwoodMode_CW_def KenwoodMode_FM_def
  KenwoodMode_AM_def KenwoodMode_FSK_def KenwoodMode_CW_R_def KenwoodMode_FSK_R_def
  CivMode_LSB_def CivMode_USB_def CivMode_AM_def CivMode_CW_def CivMode_RTTY_def
  CivMode_FM_def CivMode_CW_R_def CivMode_RTTY_R_def CivMode_DV_def
  YaesuMode_LSB_def YaesuMode_USB_def YaesuMode_CW_def YaesuMode_CW_R_def YaesuMode_AM_def
  YaesuMode_FM_def YaesuMode_DIG_def YaesuMode_PKT_def YaesuMode_FM_N_def
  YaesuMode_DIG_USB_def YaesuMode_DIG_LSB_def

text \<open>
  Claim C4, as the code has it. Converting a mode to the native code and back gives the
  mode itself or one of these collapses. Kenwood: RTTY becomes FSK, DATA_USB becomes USB,
  DATA_LSB becomes LSB, and the modes the table does not list (FMW, TUNE, DIG, UNKNOWN)
  become USB. Icom: FSK becomes RTTY, DATA_USB becomes USB, DATA_LSB becomes LSB, and
  FMW, TUNE, DIG, UNKNOWN become USB. Yaesu: FSK, DATA_USB and DATA_LSB become DIG, and
  the modes the table does not list (FMW, RTTY, TUNE, FSK_R, UNKNOWN) become USB. For
  Kenwood, RTTY and FSK have the same code, and that code reads back as FSK. For Yaesu,
  FSK has the digital code, and RTTY has the USB code, which is another code.
\<close>

theorem mode_roundtrip:
  "kenwood_to_radio_mode (radio_mode_to_kenwood m) =
     (if m = RTTY then FSK
      else if m = DATA_USB then USB
      else if m = DATA_LSB then LSB
      else if m \<in> {FMW, TUNE, DIG, UNKNOWN} then USB
      else m)
   \<and> civ_to_radio_mode (radio_mode_to_civ m) =
     (if m = FSK then RTTY
      else if m = DATA_USB then USB
      else if m = DATA_LSB then LSB
      else if m \<in> {FMW, TUNE, DIG, UNKNOWN} then USB
      else m)
   \<and> yaesu_to_radio_mode (radio_mode_to_yaesu m) =
     (if m \<in> {FSK, DATA_USB, DATA_LSB} then DIG
      else if m \<in> {FMW, RTTY, TUNE, FSK_R, UNKNOWN} then USB
      else m)
   \<and> radio_mode_to_kenwood RTTY = radio_mode_to_kenwood FSK
   \<and> kenwood_to_radio_mode (radio_mode_to_kenwood FSK) = FSK
   \<and> radio_mode_to_yaesu FSK = YaesuMode_DIG
   \<and> radio_mode_to_yaesu RTTY = YaesuMode_USB
   \<and> YaesuMode_USB \<noteq> YaesuMode_DIG"
  by (cases m) (simp_all add: kenwood_to_radio_mode_def civ_to_radio_mode_def
      yaesu_to_radio_mode_def mode_code_defs)

text \<open>The claim as written fails: the Yaesu table does not send RTTY to the digital code.\<close>

theorem yaesu_RTTY_counterexample:
  "\<not> (radio_mode_to_yaesu FSK = YaesuMode_DIG \<and> radio_mode_to_yaesu RTTY = YaesuMode_DIG)"
  by (simp add: mode_code_defs)

section \<open>Response parsers\<close>

lemma drop_wrap:
  assumes l: "length buf = 256"
  shows "drop ((256 + 1 + length xs) div 257 * 257) (buf @ c # xs)
       = drop (length xs div 257 * 257) xs"
proof -
  have "(257 + length xs) div 257 = 1 + length xs div 257"
    using div_add_self1 [of 257 "length xs"] by simp
  then have a: "(256 + 1 + length xs) div 257 * 257 = length xs div 257 * 257 + 257"
    by simp
  have b: "drop 257 (buf @ c # xs) = xs" using l by simp
  have "drop (length xs div 257 * 257 + 257) (buf @ c # xs)
      = drop (length xs div 257 * 257) (drop 257 (buf @ c # xs))"
    by (simp only: drop_drop)
  then show ?thesis by (simp only: a b)
qed

lemma Kenwood_rx_byte_other:
  "c \<noteq> of_char CHR '';'' \<Longrightarrow>
     Kenwood_rx_byte c s =
       (s\<lparr>kw_rx_buffer := (if length (kw_rx_buffer s) \<ge> 256 then [] else kw_rx_buffer s @ [c])\<rparr>, [])"
  by (auto simp: Kenwood_rx_byte_def Let_def)

lemma Kenwood_rx_byte_semicolon:
  "c = of_char CHR '';'' \<Longrightarrow>
     Kenwood_rx_byte c s =
       (s\<lparr>kw_rx_buffer := []\<rparr>, (case kw_ack_callback s of Some a \<Rightarrow> [AckCall a] | None \<Rightarrow> []))"
  by (simp add: Kenwood_rx_byte_def Let_def)

lemma Kenwood_process_response_no_semicolon:
  "of_char CHR '';'' \<notin> set xs \<Longrightarrow> length (kw_rx_buffer s) \<le> 256 \<Longrightarrow>
     Kenwood_process_response xs s =
       (s\<lparr>kw_rx_buffer :=
            drop ((length (kw_rx_buffer s) + length xs) div 257 * 257) (kw_rx_buffer s @ xs)\<rparr>, [])"
proof (induction xs arbitrary: s)
  case Nil
  then show ?case by simp
next
  case (Cons c xs)
  from Cons.prems have c: "c \<noteq> of_char CHR '';''" and xs: "of_char CHR '';'' \<notin> set xs" by auto
  show ?case
  proof (cases "length (kw_rx_buffer s) = 256")
    case True
    let ?s1 = "s\<lparr>kw_rx_buffer := []\<rparr>"
    have "Kenwood_process_response xs ?s1
        = (?s1\<lparr>kw_rx_buffer := drop (length xs div 257 * 257) xs\<rparr>, [])"
      using Cons.IH [OF xs, of ?s1] by simp
    then show ?thesis
      using True drop_wrap [OF True, of xs c]
      by (simp add: Kenwood_rx_byte_other [OF c])
  next
    case False
    with Cons.prems have lt: "length (kw_rx_buffer s) < 256" by simp
    let ?s1 = "s\<lparr>kw_rx_buffer := kw_rx_buffer s @ [c]\<rparr>"
    have "Kenwood_process_response xs ?s1
        = (?s1\<lparr>kw_rx_buffer :=
              drop ((length (kw_rx_buffer ?s1) + length xs) div 257 * 257) (kw_rx_buffer ?s1 @ xs)\<rparr>, [])"
      using lt by (intro Cons.IH [OF xs]) simp
    then show ?thesis
      using lt by (simp add: Kenwood_rx_byte_other [OF c])
  qed
qed

lemma IcomCiv_rx_byte_other:
  "d \<noteq> CIV_EOM \<Longrightarrow>
     IcomCiv_rx_byte d s =
       (s\<lparr>civ_rx_buffer := (if length (civ_rx_buffer s) \<ge> 256 then [] else civ_rx_buffer s @ [d])\<rparr>, [])"
  by (auto simp: IcomCiv_rx_byte_def Let_def)

lemma IcomCiv_rx_byte_EOM:
  "IcomCiv_rx_byte CIV_EOM s =
     (s\<lparr>civ_rx_buffer := []\<rparr>,
      (if length (civ_rx_buffer s @ [CIV_EOM]) \<ge> 6
          \<and> (civ_rx_buffer s @ [CIV_EOM]) ! 0 = CIV_PREAMBLE
          \<and> (civ_rx_buffer s @ [CIV_EOM]) ! 1 = CIV_PREAMBLE
          \<and> (civ_rx_buffer s @ [CIV_EOM]) ! 4 = CIV_ACK
       then (case civ_ack_callback s of Some a \<Rightarrow> [AckCall a] | None \<Rightarrow> [])
       else []))"
  by (simp add: IcomCiv_rx_byte_def Let_def)

lemma IcomCiv_process_response_no_EOM:
  "CIV_EOM \<notin> set xs \<Longrightarrow> length (civ_rx_buffer s) \<le> 256 \<Longrightarrow>
     IcomCiv_process_response xs s =
       (s\<lparr>civ_rx_buffer :=
            drop ((length (civ_rx_buffer s) + length xs) div 257 * 257) (civ_rx_buffer s @ xs)\<rparr>, [])"
proof (induction xs arbitrary: s)
  case Nil
  then show ?case by simp
next
  case (Cons c xs)
  from Cons.prems have c: "c \<noteq> CIV_EOM" and xs: "CIV_EOM \<notin> set xs" by auto
  show ?case
  proof (cases "length (civ_rx_buffer s) = 256")
    case True
    let ?s1 = "s\<lparr>civ_rx_buffer := []\<rparr>"
    have "IcomCiv_process_response xs ?s1
        = (?s1\<lparr>civ_rx_buffer := drop (length xs div 257 * 257) xs\<rparr>, [])"
      using Cons.IH [OF xs, of ?s1] by simp
    then show ?thesis
      using True drop_wrap [OF True, of xs c]
      by (simp add: IcomCiv_rx_byte_other [OF c])
  next
    case False
    with Cons.prems have lt: "length (civ_rx_buffer s) < 256" by simp
    let ?s1 = "s\<lparr>civ_rx_buffer := civ_rx_buffer s @ [c]\<rparr>"
    have "IcomCiv_process_response xs ?s1
        = (?s1\<lparr>civ_rx_buffer :=
              drop ((length (civ_rx_buffer ?s1) + length xs) div 257 * 257) (civ_rx_buffer ?s1 @ xs)\<rparr>, [])"
      using lt by (intro Cons.IH [OF xs]) simp
    then show ?thesis
      using lt by (simp add: IcomCiv_rx_byte_other [OF c])
  qed
qed

text \<open>
  Claim C5, as the code has it. Let the parse buffer hold at most 256 bytes, as it does
  after every call. Kenwood and Icom alike: bytes without the terminator (\<^verbatim>\<open>;\<close>,
  respectively \<^verbatim>\<open>0xFD\<close>) cause no callback at all, and the buffer is cleared, silently,
  each time it reaches 257 bytes; so it is empty when buffered and fed bytes add up to
  257. Kenwood, with an acknowledge callback registered: \<^verbatim>\<open>;\<close> causes exactly one
  acknowledgement and leaves the buffer empty. Icom, with an acknowledge callback
  registered: \<^verbatim>\<open>0xFD\<close> leaves the buffer empty, and causes exactly one acknowledgement
  if the buffer with the \<^verbatim>\<open>0xFD\<close> appended has six bytes or more, starts with
  \<^verbatim>\<open>0xFE 0xFE\<close> and has the ACK code \<^verbatim>\<open>0xFB\<close> at offset 4; otherwise it causes none.
\<close>

theorem response_parsers:
  "(of_char CHR '';'' \<notin> set xs \<and> length (kw_rx_buffer k) \<le> 256 \<longrightarrow>
      snd (Kenwood_process_response xs k) = []
      \<and> kw_rx_buffer (fst (Kenwood_process_response xs k))
          = drop ((length (kw_rx_buffer k) + length xs) div 257 * 257) (kw_rx_buffer k @ xs))
   \<and> (of_char CHR '';'' \<notin> set xs \<and> length (kw_rx_buffer k) \<le> 256
        \<and> length (kw_rx_buffer k) + length xs = 257 \<longrightarrow>
      ack_count (snd (Kenwood_process_response xs k)) = 0
      \<and> kw_rx_buffer (fst (Kenwood_process_response xs k)) = [])
   \<and> (kw_ack_callback k = Some a \<longrightarrow>
      Kenwood_process_response [of_char CHR '';''] k = (k\<lparr>kw_rx_buffer := []\<rparr>, [AckCall a])
      \<and> ack_count (snd (Kenwood_process_response [of_char CHR '';''] k)) = 1)
   \<and> (CIV_EOM \<notin> set xs \<and> length (civ_rx_buffer i) \<le> 256 \<longrightarrow>
      snd (IcomCiv_process_response xs i) = []
      \<and> civ_rx_buffer (fst (IcomCiv_process_response xs i))
          = drop ((length (civ_rx_buffer i) + length xs) div 257 * 257) (civ_rx_buffer i @ xs))
   \<and> (CIV_EOM \<notin> set xs \<and> length (civ_rx_buffer i) \<le> 256
        \<and> length (civ_rx_buffer i) + length xs = 257 \<longrightarrow>
      ack_count (snd (IcomCiv_process_response xs i)) = 0
      \<and> civ_rx_buffer (fst (IcomCiv_process_response xs i)) = [])
   \<and> (civ_ack_callback i = Some a \<longrightarrow>
      civ_rx_buffer (fst (IcomCiv_process_response [CIV_EOM] i)) = []
      \<and> ack_count (snd (IcomCiv_process_response [CIV_EOM] i))
          = (if 6 \<le> length (civ_rx_buffer i @ [CIV_EOM])
                \<and> (civ_rx_buffer i @ [CIV_EOM]) ! 0 = CIV_PREAMBLE
                \<and> (civ_rx_buffer i @ [CIV_EOM]) ! 1 = CIV_PREAMBLE
                \<and> (civ_rx_buffer i @ [CIV_EOM]) ! 4 = CIV_ACK
             then 1 else 0))"
proof (intro conjI impI)
  assume h: "of_char CHR '';'' \<notin> set xs \<and> length (kw_rx_buffer k) \<le> 256"
  then have e: "Kenwood_process_response xs k =
       (k\<lparr>kw_rx_buffer :=
            drop ((length (kw_rx_buffer k) + length xs) div 257 * 257) (kw_rx_buffer k @ xs)\<rparr>, [])"
    by (intro Kenwood_process_response_no_semicolon) simp_all
  show "snd (Kenwood_process_response xs k) = []" by (simp add: e)
  show "kw_rx_buffer (fst (Kenwood_process_response xs k))
          = drop ((length (kw_rx_buffer k) + length xs) div 257 * 257) (kw_rx_buffer k @ xs)"
    by (simp add: e)
next
  assume h: "of_char CHR '';'' \<notin> set xs \<and> length (kw_rx_buffer k) \<le> 256
        \<and> length (kw_rx_buffer k) + length xs = 257"
  then have e: "Kenwood_process_response xs k =
       (k\<lparr>kw_rx_buffer :=
            drop ((length (kw_rx_buffer k) + length xs) div 257 * 257) (kw_rx_buffer k @ xs)\<rparr>, [])"
    by (intro Kenwood_process_response_no_semicolon) simp_all
  show "ack_count (snd (Kenwood_process_response xs k)) = 0" by (simp add: e)
  from h have t: "length (kw_rx_buffer k) + length xs = 257" by simp
  show "kw_rx_buffer (fst (Kenwood_process_response xs k)) = []"
    using t by (simp add: e)
next
  assume h: "kw_ack_callback k = Some a"
  then show e: "Kenwood_process_response [of_char CHR '';''] k = (k\<lparr>kw_rx_buffer := []\<rparr>, [AckCall a])"
    using Kenwood_rx_byte_semicolon [of "of_char CHR '';''" k] by simp
  show "ack_count (snd (Kenwood_process_response [of_char CHR '';''] k)) = 1"
    by (simp only: e) simp
next
  assume h: "CIV_EOM \<notin> set xs \<and> length (civ_rx_buffer i) \<le> 256"
  then have e: "IcomCiv_process_response xs i =
       (i\<lparr>civ_rx_buffer :=
            drop ((length (civ_rx_buffer i) + length xs) div 257 * 257) (civ_rx_buffer i @ xs)\<rparr>, [])"
    by (intro IcomCiv_process_response_no_EOM) simp_all
  show "snd (IcomCiv_process_response xs i) = []" by (simp add: e)
  show "civ_rx_buffer (fst (IcomCiv_process_response xs i))
          = drop ((length (civ_rx_buffer i) + length xs) div 257 * 257) (civ_rx_buffer i @ xs)"
    by (simp add: e)
next
  assume h: "CIV_EOM \<notin> set xs \<and> length (civ_rx_buffer i) \<le> 256
        \<and> length (civ_rx_buffer i) + length xs = 257"
  then have e: "IcomCiv_process_response xs i =
       (i\<lparr>civ_rx_buffer :=
            drop ((length (civ_rx_buffer i) + length xs) div 257 * 257) (civ_rx_buffer i @ xs)\<rparr>, [])"
    by (intro IcomCiv_process_response_no_EOM) simp_all
  show "ack_count (snd (IcomCiv_process_response xs i)) = 0" by (simp add: e)
  from h have t: "length (civ_rx_buffer i) + length xs = 257" by simp
  show "civ_rx_buffer (fst (IcomCiv_process_response xs i)) = []"
    using t by (simp add: e)
next
  assume h: "civ_ack_callback i = Some a"
  show "civ_rx_buffer (fst (IcomCiv_process_response [CIV_EOM] i)) = []"
    by (simp add: IcomCiv_rx_byte_EOM)
  show "ack_count (snd (IcomCiv_process_response [CIV_EOM] i))
          = (if 6 \<le> length (civ_rx_buffer i @ [CIV_EOM])
                \<and> (civ_rx_buffer i @ [CIV_EOM]) ! 0 = CIV_PREAMBLE
                \<and> (civ_rx_buffer i @ [CIV_EOM]) ! 1 = CIV_PREAMBLE
                \<and> (civ_rx_buffer i @ [CIV_EOM]) ! 4 = CIV_ACK
             then 1 else 0)"
    using h by (simp add: IcomCiv_rx_byte_EOM)
qed

theorem response_parsers_witness:
  "of_char CHR '';'' \<notin> set (replicate 257 (0x41 :: byte))
   \<and> length (kw_rx_buffer ((Kenwood_new (Some 0))\<lparr>kw_ack_callback := Some 1\<rparr>)) \<le> 256
   \<and> length (kw_rx_buffer ((Kenwood_new (Some 0))\<lparr>kw_ack_callback := Some 1\<rparr>))
        + length (replicate 257 (0x41 :: byte)) = 257
   \<and> snd (Kenwood_process_response (replicate 257 0x41)
        ((Kenwood_new (Some 0))\<lparr>kw_ack_callback := Some 1\<rparr>)) = []
   \<and> ack_count (snd (Kenwood_process_response (replicate 257 0x41)
        ((Kenwood_new (Some 0))\<lparr>kw_ack_callback := Some 1\<rparr>))) = 0
   \<and> kw_rx_buffer (fst (Kenwood_process_response (replicate 257 0x41)
        ((Kenwood_new (Some 0))\<lparr>kw_ack_callback := Some 1\<rparr>))) = []
   \<and> kw_ack_callback ((Kenwood_new (Some 0))\<lparr>kw_ack_callback := Some 1\<rparr>) = Some 1
   \<and> ack_count (snd (Kenwood_process_response [of_char CHR '';'']
        ((Kenwood_new (Some 0))\<lparr>kw_ack_callback := Some 1\<rparr>))) = 1
   \<and> CIV_EOM \<notin> set (replicate 257 (0x41 :: byte))
   \<and> length (civ_rx_buffer ((IcomCiv_new (Some 0) 0x94)\<lparr>civ_ack_callback := Some 1\<rparr>)) \<le> 256
   \<and> snd (IcomCiv_process_response (replicate 257 0x41)
        ((IcomCiv_new (Some 0) 0x94)\<lparr>civ_ack_callback := Some 1\<rparr>)) = []
   \<and> ack_count (snd (IcomCiv_process_response (replicate 257 0x41)
        ((IcomCiv_new (Some 0) 0x94)\<lparr>civ_ack_callback := Some 1\<rparr>))) = 0
   \<and> civ_rx_buffer (fst (IcomCiv_process_response (replicate 257 0x41)
        ((IcomCiv_new (Some 0) 0x94)\<lparr>civ_ack_callback := Some 1\<rparr>))) = []
   \<and> civ_ack_callback ((IcomCiv_new (Some 0) 0x94)
        \<lparr>civ_ack_callback := Some 1, civ_rx_buffer := [0xFE, 0xFE, 0xE0, 0x94, 0xFB]\<rparr>) = Some 1
   \<and> ack_count (snd (IcomCiv_process_response [CIV_EOM] ((IcomCiv_new (Some 0) 0x94)
        \<lparr>civ_ack_callback := Some 1, civ_rx_buffer := [0xFE, 0xFE, 0xE0, 0x94, 0xFB]\<rparr>))) = 1
   \<and> civ_rx_buffer (fst (IcomCiv_process_response [CIV_EOM] ((IcomCiv_new (Some 0) 0x94)
        \<lparr>civ_ack_callback := Some 1, civ_rx_buffer := [0xFE, 0xFE, 0xE0, 0x94, 0xFB]\<rparr>))) = []"
proof -
  note t1 = response_parsers
    [of "replicate 257 0x41" "(Kenwood_new (Some 0))\<lparr>kw_ack_callback := Some 1\<rparr>" 1
        "(IcomCiv_new (Some 0) 0x94)\<lparr>civ_ack_callback := Some 1\<rparr>"]
  note t2 = response_parsers
    [of "[]" "(Kenwood_new (Some 0))\<lparr>kw_ack_callback := Some 1\<rparr>" 1
        "(IcomCiv_new (Some 0) 0x94)
          \<lparr>civ_ack_callback := Some 1, civ_rx_buffer := [0xFE, 0xFE, 0xE0, 0x94, 0xFB]\<rparr>"]
  have h1: "of_char CHR '';'' \<notin> set (replicate 257 (0x41 :: byte))
      \<and> length (kw_rx_buffer ((Kenwood_new (Some 0))\<lparr>kw_ack_callback := Some 1\<rparr>)) \<le> 256
      \<and> length (kw_rx_buffer ((Kenwood_new (Some 0))\<lparr>kw_ack_callback := Some 1\<rparr>))
           + length (replicate 257 (0x41 :: byte)) = 257"
    by (simp add: Kenwood_new_def)
  have h2: "kw_ack_callback ((Kenwood_new (Some 0))\<lparr>kw_ack_callback := Some 1\<rparr>) = Some 1"
    by simp
  have h3: "CIV_EOM \<notin> set (replicate 257 (0x41 :: byte))
      \<and> length (civ_rx_buffer ((IcomCiv_new (Some 0) 0x94)\<lparr>civ_ack_callback := Some 1\<rparr>)) \<le> 256
      \<and> length (civ_rx_buffer ((IcomCiv_new (Some 0) 0x94)\<lparr>civ_ack_callback := Some 1\<rparr>))
           + length (replicate 257 (0x41 :: byte)) = 257"
    by (simp add: IcomCiv_new_def CIV_EOM_def)
  have h4: "civ_ack_callback ((IcomCiv_new (Some 0) 0x94)
        \<lparr>civ_ack_callback := Some 1, civ_rx_buffer := [0xFE, 0xFE, 0xE0, 0x94, 0xFB]\<rparr>) = Some 1"
    by simp
  have v: "(if 6 \<le> length (civ_rx_buffer ((IcomCiv_new (Some 0) 0x94)
               \<lparr>civ_ack_callback := Some 1, civ_rx_buffer := [0xFE, 0xFE, 0xE0, 0x94, 0xFB]\<rparr>)
               @ [CIV_EOM])
            \<and> (civ_rx_buffer ((IcomCiv_new (Some 0) 0x94)
               \<lparr>civ_ack_callback := Some 1, civ_rx_buffer := [0xFE, 0xFE, 0xE0, 0x94, 0xFB]\<rparr>)
               @ [CIV_EOM]) ! 0 = CIV_PREAMBLE
            \<and> (civ_rx_buffer ((IcomCiv_new (Some 0) 0x94)
               \<lparr>civ_ack_callback := Some 1, civ_rx_buffer := [0xFE, 0xFE, 0xE0, 0x94, 0xFB]\<rparr>)
               @ [CIV_EOM]) ! 1 = CIV_PREAMBLE
            \<and> (civ_rx_buffer ((IcomCiv_new (Some 0) 0x94)
               \<lparr>civ_ack_callback := Some 1, civ_rx_buffer := [0xFE, 0xFE, 0xE0, 0x94, 0xFB]\<rparr>)
               @ [CIV_EOM]) ! 4 = CIV_ACK
           then 1 else 0) = (1 :: nat)"
    by (simp add: CIV_PREAMBLE_def CIV_ACK_def)
  from t1 h1 have a: "ack_count (snd (Kenwood_process_response (replicate 257 0x41)
        ((Kenwood_new (Some 0))\<lparr>kw_ack_callback := Some 1\<rparr>))) = 0
      \<and> kw_rx_buffer (fst (Kenwood_process_response (replicate 257 0x41)
        ((Kenwood_new (Some 0))\<lparr>kw_ack_callback := Some 1\<rparr>))) = []"
    by blast
  from t1 h2 have b: "ack_count (snd (Kenwood_process_response [of_char CHR '';'']
        ((Kenwood_new (Some 0))\<lparr>kw_ack_callback := Some 1\<rparr>))) = 1"
    by blast
  from t1 h3 have c: "ack_count (snd (IcomCiv_process_response (replicate 257 0x41)
        ((IcomCiv_new (Some 0) 0x94)\<lparr>civ_ack_callback := Some 1\<rparr>))) = 0
      \<and> civ_rx_buffer (fst (IcomCiv_process_response (replicate 257 0x41)
        ((IcomCiv_new (Some 0) 0x94)\<lparr>civ_ack_callback := Some 1\<rparr>))) = []"
    by blast
  from t2 h4 have d: "civ_rx_buffer (fst (IcomCiv_process_response [CIV_EOM] ((IcomCiv_new (Some 0) 0x94)
        \<lparr>civ_ack_callback := Some 1, civ_rx_buffer := [0xFE, 0xFE, 0xE0, 0x94, 0xFB]\<rparr>))) = []
      \<and> ack_count (snd (IcomCiv_process_response [CIV_EOM] ((IcomCiv_new (Some 0) 0x94)
        \<lparr>civ_ack_callback := Some 1, civ_rx_buffer := [0xFE, 0xFE, 0xE0, 0x94, 0xFB]\<rparr>)))
        = (if 6 \<le> length (civ_rx_buffer ((IcomCiv_new (Some 0) 0x94)
               \<lparr>civ_ack_callback := Some 1, civ_rx_buffer := [0xFE, 0xFE, 0xE0, 0x94, 0xFB]\<rparr>)
               @ [CIV_EOM])
            \<and> (civ_rx_buffer ((IcomCiv_new (Some 0) 0x94)
               \<lparr>civ_ack_callback := Some 1, civ_rx_buffer := [0xFE, 0xFE, 0xE0, 0x94, 0xFB]\<rparr>)
               @ [CIV_EOM]) ! 0 = CIV_PREAMBLE
            \<and> (civ_rx_buffer ((IcomCiv_new (Some 0) 0x94)
               \<lparr>civ_ack_callback := Some 1, civ_rx_buffer := [0xFE, 0xFE, 0xE0, 0x94, 0xFB]\<rparr>)
               @ [CIV_EOM]) ! 1 = CIV_PREAMBLE
            \<and> (civ_rx_buffer ((IcomCiv_new (Some 0) 0x94)
               \<lparr>civ_ack_callback := Some 1, civ_rx_buffer := [0xFE, 0xFE, 0xE0, 0x94, 0xFB]\<rparr>)
               @ [CIV_EOM]) ! 4 = CIV_ACK
           then 1 else 0)"
    by blast
  from d v have e: "ack_count (snd (IcomCiv_process_response [CIV_EOM] ((IcomCiv_new (Some 0) 0x94)
        \<lparr>civ_ack_callback := Some 1, civ_rx_buffer := [0xFE, 0xFE, 0xE0, 0x94, 0xFB]\<rparr>))) = 1"
    by (simp only:)
  from t1 h1 have f: "snd (Kenwood_process_response (replicate 257 0x41)
        ((Kenwood_new (Some 0))\<lparr>kw_ack_callback := Some 1\<rparr>)) = []"
    by blast
  from t1 h3 have g: "snd (IcomCiv_process_response (replicate 257 0x41)
        ((IcomCiv_new (Some 0) 0x94)\<lparr>civ_ack_callback := Some 1\<rparr>)) = []"
    by blast
  from h1 h2 h3 h4 a b c d e f g show ?thesis by blast
qed

text \<open>
  The claim as written fails for Icom: a well-framed NAK (six bytes, double preamble,
  \<^verbatim>\<open>0xFA\<close> at offset 4, end marker) is acknowledged zero times, not once.
\<close>

theorem icom_NAK_frame_counterexample:
  "civ_ack_callback
      (IcomCiv_register_ack_callback (Some 1) (snd (IcomCiv_initialize (IcomCiv_new (Some 0) 0x94))))
     = Some 1
   \<and> civ_rx_buffer
      (IcomCiv_register_ack_callback (Some 1) (snd (IcomCiv_initialize (IcomCiv_new (Some 0) 0x94))))
     = []
   \<and> ack_count (snd (IcomCiv_process_response [0xFE, 0xFE, 0xE0, 0x94, 0xFA, 0xFD]
      (IcomCiv_register_ack_callback (Some 1) (snd (IcomCiv_initialize (IcomCiv_new (Some 0) 0x94))))))
     \<noteq> 1"
  by (simp add: IcomCiv_rx_byte_def IcomCiv_register_ack_callback_def IcomCiv_initialize_def
      IcomCiv_new_def CIV_EOM_def CIV_PREAMBLE_def CIV_ACK_def Let_def)

section \<open>The stored channel\<close>

lemma Kenwood_process_response_Cons:
  "Kenwood_process_response (c # cs) s =
     (fst (Kenwood_process_response cs (fst (Kenwood_rx_byte c s))),
      snd (Kenwood_rx_byte c s) @ snd (Kenwood_process_response cs (fst (Kenwood_rx_byte c s))))"
  by (simp add: split_beta)

lemma IcomCiv_process_response_Cons:
  "IcomCiv_process_response (d # ds) s =
     (fst (IcomCiv_process_response ds (fst (IcomCiv_rx_byte d s))),
      snd (IcomCiv_rx_byte d s) @ snd (IcomCiv_process_response ds (fst (IcomCiv_rx_byte d s))))"
  by (simp add: split_beta)

lemma Kenwood_rx_byte_channel:
  "kw_current_channel (fst (Kenwood_rx_byte c k)) = kw_current_channel k"
  by (simp add: Kenwood_rx_byte_def Let_def split_beta)

lemma IcomCiv_rx_byte_channel:
  "civ_current_channel (fst (IcomCiv_rx_byte d i)) = civ_current_channel i"
  by (simp add: IcomCiv_rx_byte_def Let_def split_beta)

lemma Kenwood_process_response_channel:
  "kw_current_channel (fst (Kenwood_process_response xs k)) = kw_current_channel k"
  by (induction xs arbitrary: k)
    (simp_all add: Kenwood_process_response_Cons Kenwood_rx_byte_channel
      del: Kenwood_process_response.simps(2))

lemma IcomCiv_process_response_channel:
  "civ_current_channel (fst (IcomCiv_process_response xs i)) = civ_current_channel i"
  by (induction xs arbitrary: i)
    (simp_all add: IcomCiv_process_response_Cons IcomCiv_rx_byte_channel
      del: IcomCiv_process_response.simps(2))

text \<open>
  Claim C6. In every codec \<^verbatim>\<open>get_channel\<close> returns the last channel that
  \<^verbatim>\<open>set_channel\<close> accepted: after a call of \<^verbatim>\<open>set_channel\<close> that returns true it
  returns the channel of that call; after a call that returns false it returns what it
  returned before; on a new codec (an Elecraft one too) it returns the default channel;
  and no other operation changes what it returns.
\<close>

theorem get_channel_last_accepted:
  "(fst (Kenwood_set_channel c k) \<longrightarrow>
      Kenwood_get_channel (fst (snd (Kenwood_set_channel c k))) = c)
   \<and> (\<not> fst (Kenwood_set_channel c k) \<longrightarrow>
      Kenwood_get_channel (fst (snd (Kenwood_set_channel c k))) = Kenwood_get_channel k)
   \<and> Kenwood_get_channel (Kenwood_new serial) = Channel_default
   \<and> Kenwood_get_channel (Elecraft_new serial) = Channel_default
   \<and> Kenwood_get_channel (snd (Kenwood_initialize k)) = Kenwood_get_channel k
   \<and> Kenwood_get_channel (Kenwood_shutdown k) = Kenwood_get_channel k
   \<and> Kenwood_get_channel (Kenwood_stop k) = Kenwood_get_channel k
   \<and> Kenwood_get_channel (fst (Kenwood_set_ptt t k)) = Kenwood_get_channel k
   \<and> Kenwood_get_channel (Kenwood_register_send_callback cb k) = Kenwood_get_channel k
   \<and> Kenwood_get_channel (Kenwood_register_ack_callback cb k) = Kenwood_get_channel k
   \<and> Kenwood_get_channel (fst (Kenwood_process_response xs k)) = Kenwood_get_channel k
   \<and> (fst (IcomCiv_set_channel c i) \<longrightarrow>
      IcomCiv_get_channel (fst (snd (IcomCiv_set_channel c i))) = c)
   \<and> (\<not> fst (IcomCiv_set_channel c i) \<longrightarrow>
      IcomCiv_get_channel (fst (snd (IcomCiv_set_channel c i))) = IcomCiv_get_channel i)
   \<and> IcomCiv_get_channel (IcomCiv_new serial addr) = Channel_default
   \<and> IcomCiv_get_channel (snd (IcomCiv_initialize i)) = IcomCiv_get_channel i
   \<and> IcomCiv_get_channel (IcomCiv_shutdown i) = IcomCiv_get_channel i
   \<and> IcomCiv_get_channel (IcomCiv_stop i) = IcomCiv_get_channel i
   \<and> IcomCiv_get_channel (IcomCiv_set_radio_address addr i) = IcomCiv_get_channel i
   \<and> IcomCiv_get_channel (fst (IcomCiv_set_ptt t i)) = IcomCiv_get_channel i
   \<and> IcomCiv_get_channel (IcomCiv_register_send_callback cb i) = IcomCiv_get_channel i
   \<and> IcomCiv_get_channel (IcomCiv_register_ack_callback cb i) = IcomCiv_get_channel i
   \<and> IcomCiv_get_channel (fst (IcomCiv_process_response xs i)) = IcomCiv_get_channel i
   \<and> (fst (YaesuCat_set_channel c y) \<longrightarrow>
      YaesuCat_get_channel (fst (snd (YaesuCat_set_channel c y))) = c)
   \<and> (\<not> fst (YaesuCat_set_channel c y) \<longrightarrow>
      YaesuCat_get_channel (fst (snd (YaesuCat_set_channel c y))) = YaesuCat_get_channel y)
   \<and> YaesuCat_get_channel (YaesuCat_new serial) = Channel_default
   \<and> YaesuCat_get_channel (snd (YaesuCat_initialize y)) = YaesuCat_get_channel y
   \<and> YaesuCat_get_channel (YaesuCat_shutdown y) = YaesuCat_get_channel y
   \<and> YaesuCat_get_channel (YaesuCat_stop y) = YaesuCat_get_channel y
   \<and> YaesuCat_get_channel (fst (YaesuCat_set_ptt t y)) = YaesuCat_get_channel y
   \<and> YaesuCat_get_channel (YaesuCat_register_send_callback cb y) = YaesuCat_get_channel y
   \<and> YaesuCat_get_channel (YaesuCat_register_ack_callback cb y) = YaesuCat_get_channel y
   \<and> YaesuCat_get_channel (fst (YaesuCat_process_response xs y)) = YaesuCat_get_channel y"
  by (simp add: Kenwood_set_channel_def Kenwood_get_channel_def Kenwood_new_def Elecraft_new_def
      Kenwood_initialize_def Kenwood_shutdown_def Kenwood_stop_def Kenwood_set_ptt_def
      Kenwood_register_send_callback_def Kenwood_register_ack_callback_def
      Kenwood_process_response_channel
      IcomCiv_set_channel_def IcomCiv_get_channel_def IcomCiv_new_def
      IcomCiv_initialize_def IcomCiv_shutdown_def IcomCiv_stop_def IcomCiv_set_ptt_def
      IcomCiv_set_radio_address_def
      IcomCiv_register_send_callback_def IcomCiv_register_ack_callback_def
      IcomCiv_process_response_channel
      YaesuCat_set_channel_def YaesuCat_get_channel_def YaesuCat_new_def
      YaesuCat_initialize_def YaesuCat_shutdown_def YaesuCat_stop_def YaesuCat_set_ptt_def
      YaesuCat_register_send_callback_def YaesuCat_register_ack_callback_def
      YaesuCat_process_response_def Let_def)

theorem get_channel_last_accepted_witness:
  "fst (Kenwood_set_channel (Channel_default\<lparr>rx_frequency := 7100000\<rparr>)
        ((Kenwood_new (Some 0))\<lparr>kw_ready := True\<rparr>))
   \<and> Kenwood_get_channel (fst (snd (Kenwood_set_channel (Channel_default\<lparr>rx_frequency := 7100000\<rparr>)
        ((Kenwood_new (Some 0))\<lparr>kw_ready := True\<rparr>)))) = Channel_default\<lparr>rx_frequency := 7100000\<rparr>
   \<and> fst (IcomCiv_set_channel (Channel_default\<lparr>rx_frequency := 7100000\<rparr>)
        ((IcomCiv_new (Some 0) 0x94)\<lparr>civ_ready := True\<rparr>))
   \<and> IcomCiv_get_channel (fst (snd (IcomCiv_set_channel (Channel_default\<lparr>rx_frequency := 7100000\<rparr>)
        ((IcomCiv_new (Some 0) 0x94)\<lparr>civ_ready := True\<rparr>)))) = Channel_default\<lparr>rx_frequency := 7100000\<rparr>
   \<and> fst (YaesuCat_set_channel (Channel_default\<lparr>rx_frequency := 7100000\<rparr>)
        ((YaesuCat_new (Some 0))\<lparr>ys_ready := True\<rparr>))
   \<and> YaesuCat_get_channel (fst (snd (YaesuCat_set_channel (Channel_default\<lparr>rx_frequency := 7100000\<rparr>)
        ((YaesuCat_new (Some 0))\<lparr>ys_ready := True\<rparr>)))) = Channel_default\<lparr>rx_frequency := 7100000\<rparr>
   \<and> \<not> fst (Kenwood_set_channel (Channel_default\<lparr>rx_frequency := 7100000\<rparr>) (Kenwood_new (Some 0)))
   \<and> Kenwood_get_channel (fst (snd (Kenwood_set_channel (Channel_default\<lparr>rx_frequency := 7100000\<rparr>)
        (Kenwood_new (Some 0))))) = Channel_default
   \<and> \<not> fst (IcomCiv_set_channel (Channel_default\<lparr>rx_frequency := 7100000\<rparr>) (IcomCiv_new (Some 0) 0x94))
   \<and> IcomCiv_get_channel (fst (snd (IcomCiv_set_channel (Channel_default\<lparr>rx_frequency := 7100000\<rparr>)
        (IcomCiv_new (Some 0) 0x94)))) = Channel_default
   \<and> \<not> fst (YaesuCat_set_channel (Channel_default\<lparr>rx_frequency := 7100000\<rparr>) (YaesuCat_new (Some 0)))
   \<and> YaesuCat_get_channel (fst (snd (YaesuCat_set_channel (Channel_default\<lparr>rx_frequency := 7100000\<rparr>)
        (YaesuCat_new (Some 0))))) = Channel_default"
  using get_channel_last_accepted
    [where c = "Channel_default\<lparr>rx_frequency := 7100000\<rparr>"
       and k = "(Kenwood_new (Some 0))\<lparr>kw_ready := True\<rparr>"
       and i = "(IcomCiv_new (Some 0) 0x94)\<lparr>civ_ready := True\<rparr>"
       and y = "(YaesuCat_new (Some 0))\<lparr>ys_ready := True\<rparr>"]
    get_channel_last_accepted
    [where c = "Channel_default\<lparr>rx_frequency := 7100000\<rparr>"
       and k = "Kenwood_new (Some 0)" and i = "IcomCiv_new (Some 0) 0x94"
       and y = "YaesuCat_new (Some 0)"]
  by (simp add: Kenwood_set_channel_def IcomCiv_set_channel_def YaesuCat_set_channel_def
      Kenwood_new_def IcomCiv_new_def YaesuCat_new_def Kenwood_get_channel_def
      IcomCiv_get_channel_def YaesuCat_get_channel_def Let_def)

section \<open>Elecraft and Kenwood\<close>

lemma radio_invoke_class:
  "call \<noteq> GetPortConfig \<Longrightarrow> radio_invoke ElecraftClass call s = radio_invoke KenwoodClass call s"
  by (cases call) simp_all

lemma radio_invoke_state_events:
  "snd (radio_invoke ElecraftClass call s) = snd (radio_invoke KenwoodClass call s)"
  by (cases call) simp_all

lemma radio_run_Cons:
  "radio_run cls (c # cs) s =
     (fst (radio_invoke cls c s) # fst (radio_run cls cs (fst (snd (radio_invoke cls c s)))),
      fst (snd (radio_run cls cs (fst (snd (radio_invoke cls c s))))),
      snd (snd (radio_invoke cls c s))
        @ snd (snd (radio_run cls cs (fst (snd (radio_invoke cls c s))))))"
  by (simp add: split_beta)

lemma radio_run_state_events:
  "snd (radio_run ElecraftClass calls s) = snd (radio_run KenwoodClass calls s)"
proof (induction calls arbitrary: s)
  case Nil
  show ?case by simp
next
  case (Cons call calls)
  have e: "snd (radio_invoke ElecraftClass call s) = snd (radio_invoke KenwoodClass call s)"
    by (rule radio_invoke_state_events)
  show ?case
    by (simp only: radio_run_Cons snd_conv fst_conv e
        Cons.IH [of "fst (snd (radio_invoke KenwoodClass call s))"])
qed

lemma radio_run_class:
  "GetPortConfig \<notin> set calls \<Longrightarrow> radio_run ElecraftClass calls s = radio_run KenwoodClass calls s"
proof (induction calls arbitrary: s)
  case Nil
  show ?case by simp
next
  case (Cons call calls)
  from Cons.prems have c: "call \<noteq> GetPortConfig" and cs: "GetPortConfig \<notin> set calls"
    by auto
  have e: "radio_invoke ElecraftClass call s = radio_invoke KenwoodClass call s"
    using c by (rule radio_invoke_class)
  show ?case
    by (simp only: radio_run_Cons e Cons.IH [OF cs])
qed

lemma dec_string_digit: "n < 10 \<Longrightarrow> dec_string n = [''0123456789'' ! n]"
  by (simp add: dec_string.simps [of n])

lemma length_fmt_u_3: "n < 1000 \<Longrightarrow> length (fmt_u 3 n) = 3"
proof -
  assume "n < 1000"
  then have "n < 10 ^ 3" by simp
  then have "length (dec_string n) \<le> 3" by (intro length_dec_string) simp_all
  then show ?thesis by (simp add: fmt_u_def pad_zeros_def)
qed

lemma decimal_value_fmt_u: "decimal_value (fmt_u w n) = n"
  by (simp add: fmt_u_def pad_zeros_def decimal_value_zeros decimal_value_dec_string)

text \<open>
  Claim C9. On every operation of the radio interface other than \<^verbatim>\<open>get_port_config\<close>
  a call on an Elecraft object does what the same call on a Kenwood object in the same
  state does: same result, same state, same bytes sent; so do sequences of such calls,
  and a sequence with \<^verbatim>\<open>get_port_config\<close> in it still leaves the same state and sends
  the same bytes. A new Elecraft object is a new Kenwood object. \<^verbatim>\<open>get_port_config\<close>
  returns \<^verbatim>\<open>38400,n,8,1\<close> for Elecraft and \<^verbatim>\<open>9600,n,8,1\<close> for Kenwood. \<^verbatim>\<open>set_power\<close>
  with 0 to 999 watts sends, with the send primitive of Kenwood, \<^verbatim>\<open>PC\<close>, the watts as
  exactly three decimal digits, and \<^verbatim>\<open>;\<close>. \<^verbatim>\<open>set_antenna\<close> with a number from 0 to 9
  sends \<^verbatim>\<open>AN\<close>, that digit, and \<^verbatim>\<open>;\<close> the same way.
\<close>

theorem elecraft_is_kenwood:
  "(call \<noteq> GetPortConfig \<longrightarrow>
      radio_invoke ElecraftClass call s = radio_invoke KenwoodClass call s)
   \<and> (GetPortConfig \<notin> set calls \<longrightarrow>
      radio_run ElecraftClass calls s = radio_run KenwoodClass calls s)
   \<and> snd (radio_run ElecraftClass calls s) = snd (radio_run KenwoodClass calls s)
   \<and> Elecraft_new serial = Kenwood_new serial
   \<and> radio_invoke ElecraftClass GetPortConfig s = (RString ''38400,n,8,1'', s, [])
   \<and> radio_invoke KenwoodClass GetPortConfig s = (RString ''9600,n,8,1'', s, [])
   \<and> (0 \<le> watts \<and> watts \<le> 999 \<longrightarrow>
      Elecraft_set_power watts s = Kenwood_send_command s (''PC'' @ fmt_u 3 (nat watts) @ '';'')
      \<and> length (fmt_u 3 (nat watts)) = 3
      \<and> set (fmt_u 3 (nat watts)) \<subseteq> set ''0123456789''
      \<and> decimal_value (fmt_u 3 (nat watts)) = nat watts)
   \<and> (0 \<le> ant \<and> ant \<le> 9 \<longrightarrow>
      Elecraft_set_antenna ant s
        = Kenwood_send_command s (''AN'' @ [''0123456789'' ! nat ant] @ '';''))"
proof (intro conjI impI)
  show "radio_invoke ElecraftClass call s = radio_invoke KenwoodClass call s"
    if "call \<noteq> GetPortConfig" using that by (rule radio_invoke_class)
  show "radio_run ElecraftClass calls s = radio_run KenwoodClass calls s"
    if "GetPortConfig \<notin> set calls" using that by (rule radio_run_class)
  show "snd (radio_run ElecraftClass calls s) = snd (radio_run KenwoodClass calls s)"
    by (rule radio_run_state_events)
  show "Elecraft_new serial = Kenwood_new serial" by (simp add: Elecraft_new_def)
  show "radio_invoke ElecraftClass GetPortConfig s = (RString ''38400,n,8,1'', s, [])"
    by (simp add: Elecraft_get_port_config_def)
  show "radio_invoke KenwoodClass GetPortConfig s = (RString ''9600,n,8,1'', s, [])"
    by (simp add: Kenwood_get_port_config_def)
next
  assume w: "0 \<le> watts \<and> watts \<le> 999"
  then have n: "nat watts < 1000" by auto
  show l: "length (fmt_u 3 (nat watts)) = 3" by (rule length_fmt_u_3 [OF n])
  show "set (fmt_u 3 (nat watts)) \<subseteq> set ''0123456789''" by (rule set_fmt_u)
  show "decimal_value (fmt_u 3 (nat watts)) = nat watts" by (rule decimal_value_fmt_u)
  from w have "fmt_d 3 watts = fmt_u 3 (nat watts)" by (simp add: fmt_d_def fmt_u_def)
  then show "Elecraft_set_power watts s
      = Kenwood_send_command s (''PC'' @ fmt_u 3 (nat watts) @ '';'')"
    by (simp add: Elecraft_set_power_def snprintf_def l)
next
  assume a: "0 \<le> ant \<and> ant \<le> 9"
  then have "nat ant < 10" by auto
  then have "dec_string (nat ant) = [''0123456789'' ! nat ant]" by (rule dec_string_digit)
  with a have "fmt_d 0 ant = [''0123456789'' ! nat ant]" by (simp add: fmt_d_def pad_zeros_def)
  then show "Elecraft_set_antenna ant s
      = Kenwood_send_command s (''AN'' @ [''0123456789'' ! nat ant] @ '';'')"
    by (simp add: Elecraft_set_antenna_def snprintf_def)
qed

theorem elecraft_is_kenwood_witness:
  "SetChannel Channel_default \<noteq> GetPortConfig
   \<and> radio_invoke ElecraftClass (SetChannel Channel_default) (snd (Kenwood_initialize (Elecraft_new (Some 0))))
       = radio_invoke KenwoodClass (SetChannel Channel_default) (snd (Kenwood_initialize (Kenwood_new (Some 0))))
   \<and> GetPortConfig \<notin> set [Initialize, SetChannel Channel_default, SetPtt True, GetChannel]
   \<and> radio_run ElecraftClass [Initialize, SetChannel Channel_default, SetPtt True, GetChannel]
        (Elecraft_new (Some 0))
       = radio_run KenwoodClass [Initialize, SetChannel Channel_default, SetPtt True, GetChannel]
        (Kenwood_new (Some 0))
   \<and> (0 :: int) \<le> 100 \<and> (100 :: int) \<le> 999
   \<and> Elecraft_set_power 100 (Elecraft_new (Some 0)) = [SerialWrite 0 (bytes_of ''PC100;'')]
   \<and> (0 :: int) \<le> 2 \<and> (2 :: int) \<le> 9
   \<and> Elecraft_set_antenna 2 (Elecraft_new (Some 0)) = [SerialWrite 0 (bytes_of ''AN2;'')]"
proof -
  note t = elecraft_is_kenwood
    [of "SetChannel Channel_default" "snd (Kenwood_initialize (Kenwood_new (Some 0)))"
        "[Initialize, SetChannel Channel_default, SetPtt True, GetChannel]" "Some 0" 100 2]
  note u = elecraft_is_kenwood
    [of "SetChannel Channel_default" "Kenwood_new (Some 0)"
        "[Initialize, SetChannel Channel_default, SetPtt True, GetChannel]" "Some 0" 100 2]
  have n: "Elecraft_new (Some 0) = Kenwood_new (Some 0)" by (simp add: Elecraft_new_def)
  have h1: "SetChannel Channel_default \<noteq> GetPortConfig" by simp
  have h2: "GetPortConfig \<notin> set [Initialize, SetChannel Channel_default, SetPtt True, GetChannel]"
    by simp
  have h3: "(0 :: int) \<le> 100 \<and> (100 :: int) \<le> 999" by simp
  have h4: "(0 :: int) \<le> 2 \<and> (2 :: int) \<le> 9" by simp
  have d: "dec_string 100 = ''100''" by (simp add: dec_string.simps)
  have f: "fmt_u 3 100 = ''100''" by (simp add: fmt_u_def pad_zeros_def d)
  from t h1 have a: "radio_invoke ElecraftClass (SetChannel Channel_default)
        (snd (Kenwood_initialize (Kenwood_new (Some 0))))
      = radio_invoke KenwoodClass (SetChannel Channel_default)
        (snd (Kenwood_initialize (Kenwood_new (Some 0))))" by blast
  from u h2 have b: "radio_run ElecraftClass [Initialize, SetChannel Channel_default, SetPtt True, GetChannel]
        (Kenwood_new (Some 0))
       = radio_run KenwoodClass [Initialize, SetChannel Channel_default, SetPtt True, GetChannel]
        (Kenwood_new (Some 0))" by blast
  from u h3 have "Elecraft_set_power 100 (Kenwood_new (Some 0))
      = Kenwood_send_command (Kenwood_new (Some 0)) (''PC'' @ fmt_u 3 (nat 100) @ '';'')" by blast
  then have c: "Elecraft_set_power 100 (Kenwood_new (Some 0)) = [SerialWrite 0 (bytes_of ''PC100;'')]"
    by (simp add: f Kenwood_send_command_def Kenwood_new_def)
  from u h4 have "Elecraft_set_antenna 2 (Kenwood_new (Some 0))
      = Kenwood_send_command (Kenwood_new (Some 0)) (''AN'' @ [''0123456789'' ! nat 2] @ '';'')"
    by blast
  then have e: "Elecraft_set_antenna 2 (Kenwood_new (Some 0)) = [SerialWrite 0 (bytes_of ''AN2;'')]"
    by (simp add: Kenwood_send_command_def Kenwood_new_def)
  from a b c e h1 h2 h3 h4 show ?thesis by (simp only: n) blast
qed

section \<open>Resampler\<close>

subsection \<open>The invariant\<close>

lemma size_t_of_int_nat: "0 \<le> i \<Longrightarrow> i < 2 ^ 31 \<Longrightarrow> size_t_of_int i = nat i"
  by (simp add: size_t_of_int_def)

lemma size_t_add_small: "a < 2 ^ 31 \<Longrightarrow> b < 2 ^ 31 \<Longrightarrow> size_t_add a b = a + b"
  by (simp add: size_t_add_def)

lemma Resampler_inv_total:
  assumes "Resampler_inv r"
  shows "0 < nat (rs_total_taps r)" and "nat (rs_total_taps r) < 2 ^ 31"
    and "size_t_of_int (rs_total_taps r) = nat (rs_total_taps r)"
    and "size_t_of_int (rs_ratio r) = nat (rs_ratio r)" and "0 < nat (rs_ratio r)"
proof -
  from assms have r: "1 \<le> rs_ratio r" and t: "1 \<le> rs_taps_per_phase r"
    and e: "rs_total_taps r = rs_ratio r * rs_taps_per_phase r" and b: "rs_total_taps r < 2 ^ 31"
    by (auto simp: Resampler_inv_def)
  from r t have "1 * 1 \<le> rs_ratio r * rs_taps_per_phase r" by (intro mult_mono) simp_all
  then have p: "1 \<le> rs_ratio r * rs_taps_per_phase r" by simp
  with e show "0 < nat (rs_total_taps r)" by simp
  from b show "nat (rs_total_taps r) < 2 ^ 31" by simp
  from p e b show "size_t_of_int (rs_total_taps r) = nat (rs_total_taps r)"
    by (intro size_t_of_int_nat) simp_all
  have "rs_ratio r \<le> rs_ratio r * rs_taps_per_phase r"
    using r t by (simp add: mult_le_cancel_left1)
  with e b have "rs_ratio r < 2 ^ 31" by simp
  with r show "size_t_of_int (rs_ratio r) = nat (rs_ratio r)"
    by (intro size_t_of_int_nat) simp_all
  from r show "0 < nat (rs_ratio r)" by simp
qed

lemma push_sample_inv:
  assumes "Resampler_inv r"
  shows "push_sample x r =
           Some (r\<lparr>rs_history := (rs_history r)[rs_history_pos r := x],
                   rs_history_pos := (rs_history_pos r + 1) mod nat (rs_total_taps r)\<rparr>)"
    and "Resampler_inv (r\<lparr>rs_history := (rs_history r)[rs_history_pos r := x],
                   rs_history_pos := (rs_history_pos r + 1) mod nat (rs_total_taps r)\<rparr>)"
proof -
  note t = Resampler_inv_total [OF assms]
  from assms have l: "length (rs_history r) = nat (rs_total_taps r)"
    and p: "rs_history_pos r < nat (rs_total_taps r)"
    by (auto simp: Resampler_inv_def)
  from p t(2) have "size_t_add (rs_history_pos r) 1 = rs_history_pos r + 1"
    by (intro size_t_add_small) simp_all
  with l p t show "push_sample x r =
           Some (r\<lparr>rs_history := (rs_history r)[rs_history_pos r := x],
                   rs_history_pos := (rs_history_pos r + 1) mod nat (rs_total_taps r)\<rparr>)"
    by (simp add: push_sample_def)
  from assms t(1) show "Resampler_inv (r\<lparr>rs_history := (rs_history r)[rs_history_pos r := x],
                   rs_history_pos := (rs_history_pos r + 1) mod nat (rs_total_taps r)\<rparr>)"
    by (simp add: Resampler_inv_def)
qed

lemma filter_index_in_bounds:
  assumes "Resampler_inv r" and "i < nat (rs_total_taps r)"
  shows "size_t_add (rs_history_pos r) i mod size_t_of_int (rs_total_taps r) < length (rs_history r)"
    and "size_t_add (rs_history_pos r) i mod size_t_of_int (rs_total_taps r)
           = (rs_history_pos r + i) mod nat (rs_total_taps r)"
proof -
  note t = Resampler_inv_total [OF assms(1)]
  from assms(1) have l: "length (rs_history r) = nat (rs_total_taps r)"
    and p: "rs_history_pos r < nat (rs_total_taps r)"
    by (auto simp: Resampler_inv_def)
  from p assms(2) t(2) have a: "size_t_add (rs_history_pos r) i = rs_history_pos r + i"
    by (intro size_t_add_small) simp_all
  from t(1) show "size_t_add (rs_history_pos r) i mod size_t_of_int (rs_total_taps r)
      < length (rs_history r)"
    by (simp add: a t(3) l)
  show "size_t_add (rs_history_pos r) i mod size_t_of_int (rs_total_taps r)
           = (rs_history_pos r + i) mod nat (rs_total_taps r)"
    by (simp add: a t(3))
qed

lemma apply_filter_loop_Some:
  assumes "Resampler_inv r"
  shows "\<forall>j\<in>set js. j < nat (rs_total_taps r) \<Longrightarrow> \<exists>y. apply_filter_loop r js acc = Some y"
proof (induction js arbitrary: acc)
  case Nil
  show ?case by simp
next
  case (Cons i js)
  then have i: "i < nat (rs_total_taps r)" and js: "\<forall>j\<in>set js. j < nat (rs_total_taps r)"
    by simp_all
  note t = Resampler_inv_total [OF assms]
  from assms have c: "length (rs_coeffs r) = nat (rs_total_taps r)"
    by (auto simp: Resampler_inv_def)
  from t(1) t(3) have z: "size_t_of_int (rs_total_taps r) \<noteq> 0" by simp
  show ?case
    using Cons.IH [OF js] filter_index_in_bounds(1) [OF assms i] i c z
    by (simp add: Let_def)
qed

lemma apply_filter_Some: "Resampler_inv r \<Longrightarrow> \<exists>y. apply_filter r = Some y"
  unfolding apply_filter_def by (rule apply_filter_loop_Some) simp_all

lemma decimate_loop_inv:
  "Resampler_inv r \<Longrightarrow>
     \<exists>out' r'. decimate_loop r i xs out = Some (out', r') \<and> Resampler_inv r'
       \<and> rs_ratio r' = rs_ratio r
       \<and> length out' + i div nat (rs_ratio r) = length out + (i + length xs) div nat (rs_ratio r)"
proof (induction xs arbitrary: r i out)
  case Nil
  then show ?case by simp
next
  case (Cons x xs)
  let ?r1 = "r\<lparr>rs_history := (rs_history r)[rs_history_pos r := x],
                   rs_history_pos := (rs_history_pos r + 1) mod nat (rs_total_taps r)\<rparr>"
  note p = push_sample_inv [OF Cons.prems, of x]
  note t = Resampler_inv_total [OF Cons.prems]
  from t(5) have z: "size_t_of_int (rs_ratio r) \<noteq> 0" by (simp add: t(4))
  show ?case
  proof (cases "(i + 1) mod nat (rs_ratio r) = 0")
    case True
    obtain y where y: "apply_filter ?r1 = Some y" using apply_filter_Some [OF p(2)] by blast
    from Cons.IH [OF p(2), of "i + 1" "out @ [y]"]
    obtain out' r' where s: "decimate_loop ?r1 (i + 1) xs (out @ [y]) = Some (out', r')"
      and inv: "Resampler_inv r'" and rr: "rs_ratio r' = rs_ratio r"
      and len: "length out' + (i + 1) div nat (rs_ratio r)
          = length (out @ [y]) + (i + 1 + length xs) div nat (rs_ratio r)"
      by auto
    from True have d: "(i + 1) div nat (rs_ratio r) = Suc (i div nat (rs_ratio r))"
      by (simp add: div_Suc)
    have "decimate_loop r i (x # xs) out = Some (out', r')"
      using True z s y by (simp add: p(1) t(4))
    moreover have "length out' + i div nat (rs_ratio r)
        = length out + (i + length (x # xs)) div nat (rs_ratio r)"
      using len d by simp
    ultimately show ?thesis using inv rr by blast
  next
    case False
    from Cons.IH [OF p(2), of "i + 1" out]
    obtain out' r' where s: "decimate_loop ?r1 (i + 1) xs out = Some (out', r')"
      and inv: "Resampler_inv r'" and rr: "rs_ratio r' = rs_ratio r"
      and len: "length out' + (i + 1) div nat (rs_ratio r)
          = length out + (i + 1 + length xs) div nat (rs_ratio r)"
      by auto
    from False have d: "(i + 1) div nat (rs_ratio r) = i div nat (rs_ratio r)"
      by (simp add: div_Suc)
    have "decimate_loop r i (x # xs) out = Some (out', r')"
      using False z s by (simp add: p(1) t(4))
    moreover have "length out' + i div nat (rs_ratio r)
        = length out + (i + length (x # xs)) div nat (rs_ratio r)"
      using len d by simp
    ultimately show ?thesis using inv rr by blast
  qed
qed

lemma decimate_inv:
  assumes "Resampler_inv r"
  shows "\<exists>out r'. decimate r xs = Some (out, r') \<and> Resampler_inv r'
           \<and> length out = length xs div nat (rs_ratio r)"
  using decimate_loop_inv [OF assms, of 0 xs "[]"] by (auto simp: decimate_def)

lemma interpolate_phases_inv:
  "Resampler_inv r \<Longrightarrow>
     \<exists>out' r'. interpolate_phases tf r x ps out = Some (out', r') \<and> Resampler_inv r'
       \<and> rs_ratio r' = rs_ratio r \<and> length out' = length out + length ps"
proof (induction ps arbitrary: r out)
  case Nil
  then show ?case by simp
next
  case (Cons phase ps)
  let ?x = "if phase = 0 then x * tf (rs_ratio r) else 0"
  let ?r1 = "r\<lparr>rs_history := (rs_history r)[rs_history_pos r := ?x],
                   rs_history_pos := (rs_history_pos r + 1) mod nat (rs_total_taps r)\<rparr>"
  note p = push_sample_inv [OF Cons.prems, of ?x]
  obtain y where y: "apply_filter ?r1 = Some y" using apply_filter_Some [OF p(2)] by blast
  from Cons.IH [OF p(2), of "out @ [y]"]
  obtain out' r' where s: "interpolate_phases tf ?r1 x ps (out @ [y]) = Some (out', r')"
    and inv: "Resampler_inv r'" and rr: "rs_ratio r' = rs_ratio r"
    and len: "length out' = length (out @ [y]) + length ps"
    by auto
  have "interpolate_phases tf r x (phase # ps) out = Some (out', r')"
    using s y by (simp add: Let_def p(1) split del: if_split)
  with inv rr len show ?case by simp
qed

lemma interpolate_loop_inv:
  "Resampler_inv r \<Longrightarrow>
     \<exists>out' r'. interpolate_loop tf r xs out = Some (out', r') \<and> Resampler_inv r'
       \<and> rs_ratio r' = rs_ratio r \<and> length out' = length out + length xs * nat (rs_ratio r)"
proof (induction xs arbitrary: r out)
  case Nil
  then show ?case by simp
next
  case (Cons x xs)
  from interpolate_phases_inv [OF Cons.prems, of tf x "[0..<nat (rs_ratio r)]" out]
  obtain out1 r1 where s1: "interpolate_phases tf r x [0..<nat (rs_ratio r)] out = Some (out1, r1)"
    and inv1: "Resampler_inv r1" and rr1: "rs_ratio r1 = rs_ratio r"
    and len1: "length out1 = length out + nat (rs_ratio r)"
    by auto
  from Cons.IH [OF inv1, of out1]
  obtain out' r' where s: "interpolate_loop tf r1 xs out1 = Some (out', r')"
    and inv: "Resampler_inv r'" and rr: "rs_ratio r' = rs_ratio r1"
    and len: "length out' = length out1 + length xs * nat (rs_ratio r1)"
    by auto
  have "interpolate_loop tf r (x # xs) out = Some (out', r')"
    using s by (simp add: s1)
  with inv rr rr1 len len1 show ?case by simp
qed

lemma interpolate_inv:
  assumes "Resampler_inv r"
  shows "\<exists>out r'. interpolate tf r xs = Some (out, r') \<and> Resampler_inv r'
           \<and> length out = length xs * nat (rs_ratio r)"
  using interpolate_loop_inv [OF assms, of tf xs "[]"] by (auto simp: interpolate_def)

lemma Resampler_new_inv:
  assumes "1 \<le> R" and "1 \<le> T" and "R * T < 2 ^ 31"
  shows "\<exists>r. Resampler_new design R T = Some r \<and> Resampler_inv r"
proof -
  from assms(1,2) have "1 * 1 \<le> R * T" by (intro mult_mono) simp_all
  then have p: "1 \<le> R * T" by simp
  with assms show ?thesis
    by (simp add: Resampler_new_def Let_def Resampler_inv_def)
qed

lemma reset_inv: "Resampler_inv r \<Longrightarrow> Resampler_inv (reset r)"
  by (auto simp: Resampler_inv_def reset_def)

subsection \<open>What stays fixed\<close>

lemma push_sample_config:
  "push_sample x r = Some r1 \<Longrightarrow> Resampler_config r1 = Resampler_config r"
  by (auto simp: push_sample_def Resampler_config_def split: if_splits)

lemma decimate_loop_config:
  "decimate_loop r i xs out = Some (out', r') \<Longrightarrow> Resampler_config r' = Resampler_config r"
proof (induction xs arbitrary: r i out)
  case Nil
  then show ?case by simp
next
  case (Cons x xs)
  from Cons.prems obtain r1 where p: "push_sample x r = Some r1"
    by (auto split: option.splits)
  from Cons.prems p obtain out1 where "decimate_loop r1 (i + 1) xs out1 = Some (out', r')"
    by (auto split: option.splits if_splits)
  then have "Resampler_config r' = Resampler_config r1" by (rule Cons.IH)
  with push_sample_config [OF p] show ?case by simp
qed

lemma interpolate_phases_config:
  "interpolate_phases tf r x ps out = Some (out', r') \<Longrightarrow> Resampler_config r' = Resampler_config r"
proof (induction ps arbitrary: r out)
  case Nil
  then show ?case by simp
next
  case (Cons phase ps)
  let ?x = "if phase = 0 then x * tf (rs_ratio r) else 0"
  from Cons.prems obtain r1 where p: "push_sample ?x r = Some r1"
    by (auto simp: Let_def split: option.splits)
  from Cons.prems p obtain out1 where "interpolate_phases tf r1 x ps out1 = Some (out', r')"
    by (auto simp: Let_def split: option.splits)
  then have "Resampler_config r' = Resampler_config r1" by (rule Cons.IH)
  with push_sample_config [OF p] show ?case by simp
qed

lemma interpolate_loop_config:
  "interpolate_loop tf r xs out = Some (out', r') \<Longrightarrow> Resampler_config r' = Resampler_config r"
proof (induction xs arbitrary: r out)
  case Nil
  then show ?case by simp
next
  case (Cons x xs)
  from Cons.prems obtain out1 r1
    where p: "interpolate_phases tf r x [0..<nat (rs_ratio r)] out = Some (out1, r1)"
      and l: "interpolate_loop tf r1 xs out1 = Some (out', r')"
    by (auto split: option.splits)
  from l have "Resampler_config r' = Resampler_config r1" by (rule Cons.IH)
  with interpolate_phases_config [OF p] show ?case by simp
qed

lemma reset_config: "Resampler_config (reset r) = Resampler_config r"
  by (simp add: Resampler_config_def reset_def)

lemma Resampler_reachable_config:
  "Resampler_reachable tf r0 r \<Longrightarrow> Resampler_config r = Resampler_config r0"
proof (induction rule: Resampler_reachable.induct)
  case constructed
  show ?case by simp
next
  case (after_decimate r input out r')
  then show ?case using decimate_loop_config [of r 0 input "[]" out r'] by (simp add: decimate_def)
next
  case (after_interpolate r input out r')
  then show ?case
    using interpolate_loop_config [of tf r input "[]" out r'] by (simp add: interpolate_def)
next
  case (after_reset r)
  then show ?case by (simp add: reset_config)
qed

lemma reset_eq: "reset r = r\<lparr>rs_history := replicate (length (rs_history r)) 0, rs_history_pos := 0\<rparr>"
  by (simp add: reset_def map_replicate_const)

lemma reset_constructed:
  assumes n: "Resampler_new design R T = Some r0" and c: "Resampler_config r = Resampler_config r0"
  shows "reset r = r0"
proof -
  from n have r0: "r0 = \<lparr>rs_ratio = R, rs_taps_per_phase = T, rs_total_taps = R * T,
        rs_coeffs = map (design R (R * T)) [0..<nat (R * T)],
        rs_history = replicate (nat (R * T)) 0, rs_history_pos = 0\<rparr>"
    by (simp add: Resampler_new_def Let_def split: if_splits)
  from c r0 have "rs_ratio r = R" "rs_taps_per_phase r = T" "rs_total_taps r = R * T"
    "rs_coeffs r = map (design R (R * T)) [0..<nat (R * T)]" "length (rs_history r) = nat (R * T)"
    by (simp_all add: Resampler_config_def)
  then show ?thesis by (simp add: reset_eq r0)
qed

subsection \<open>Zero in, zero out\<close>

lemma apply_filter_loop_zero:
  assumes inv: "Resampler_inv r" and h: "set (rs_history r) \<subseteq> {0}"
    and add0: "(0::'a::{zero,plus,times}) + 0 = 0" and mul0: "\<forall>c\<in>set (rs_coeffs r). 0 * c = (0::'a)"
  shows "\<forall>j\<in>set js. j < nat (rs_total_taps r) \<Longrightarrow> apply_filter_loop r js 0 = Some 0"
proof (induction js)
  case Nil
  show ?case by simp
next
  case (Cons i js)
  then have i: "i < nat (rs_total_taps r)" and js: "\<forall>j\<in>set js. j < nat (rs_total_taps r)"
    by simp_all
  note t = Resampler_inv_total [OF inv]
  from inv have c: "length (rs_coeffs r) = nat (rs_total_taps r)"
    by (auto simp: Resampler_inv_def)
  from t(1) t(3) have z: "size_t_of_int (rs_total_taps r) \<noteq> 0" by simp
  let ?idx = "size_t_add (rs_history_pos r) i mod size_t_of_int (rs_total_taps r)"
  note b = filter_index_in_bounds(1) [OF inv i]
  have "rs_history r ! ?idx \<in> set (rs_history r)" by (rule nth_mem [OF b])
  with h have hz: "rs_history r ! ?idx = 0" by blast
  from i c have "rs_coeffs r ! i \<in> set (rs_coeffs r)" by (intro nth_mem) simp
  with mul0 have "0 * rs_coeffs r ! i = 0" by blast
  with hz add0 have "0 + rs_history r ! ?idx * rs_coeffs r ! i = 0" by simp
  with Cons.IH [OF js] b i c z show ?case by (simp add: Let_def)
qed

lemma apply_filter_zero:
  assumes "Resampler_inv r" and "set (rs_history r) \<subseteq> {0}"
    and "(0::'a::{zero,plus,times}) + 0 = 0" and "\<forall>c\<in>set (rs_coeffs r). 0 * c = (0::'a)"
  shows "apply_filter r = Some 0"
  unfolding apply_filter_def by (rule apply_filter_loop_zero [OF assms]) simp

lemma push_zero:
  assumes inv: "Resampler_inv r" and h: "set (rs_history r) \<subseteq> {0}"
  shows "\<exists>r1. push_sample 0 r = Some r1 \<and> Resampler_inv r1 \<and> set (rs_history r1) \<subseteq> {0}
           \<and> Resampler_config r1 = Resampler_config r"
proof -
  let ?r1 = "r\<lparr>rs_history := (rs_history r)[rs_history_pos r := 0],
                   rs_history_pos := (rs_history_pos r + 1) mod nat (rs_total_taps r)\<rparr>"
  note p = push_sample_inv [OF inv, of 0]
  have "set ((rs_history r)[rs_history_pos r := 0]) \<subseteq> insert 0 (set (rs_history r))"
    by (rule set_update_subset_insert)
  with h have "set (rs_history ?r1) \<subseteq> {0}" by auto
  with p push_sample_config [OF p(1)] show ?thesis by blast
qed

lemma decimate_loop_zero:
  assumes add0: "(0::'a::{zero,plus,times}) + 0 = 0"
  shows "Resampler_inv r \<Longrightarrow> set (rs_history r) \<subseteq> {0} \<Longrightarrow> \<forall>c\<in>set (rs_coeffs r). 0 * c = (0::'a)
     \<Longrightarrow> set xs \<subseteq> {0} \<Longrightarrow> set out \<subseteq> {0}
     \<Longrightarrow> \<exists>out' r'. decimate_loop r i xs out = Some (out', r') \<and> set out' \<subseteq> {0}"
proof (induction xs arbitrary: r i out)
  case Nil
  then show ?case by simp
next
  case (Cons x xs)
  from Cons.prems(4) have x: "x = 0" and xs: "set xs \<subseteq> {0}" by auto
  from push_zero [OF Cons.prems(1,2)] obtain r1 where p: "push_sample 0 r = Some r1"
    and inv1: "Resampler_inv r1" and h1: "set (rs_history r1) \<subseteq> {0}"
    and c1: "Resampler_config r1 = Resampler_config r"
    by blast
  from c1 have co: "rs_coeffs r1 = rs_coeffs r" by (simp add: Resampler_config_def)
  with Cons.prems(3) have m1: "\<forall>c\<in>set (rs_coeffs r1). 0 * c = (0::'a)" by simp
  note t = Resampler_inv_total [OF inv1]
  from t(5) have z: "size_t_of_int (rs_ratio r1) \<noteq> 0" by (simp add: t(4))
  have y: "apply_filter r1 = Some 0" by (rule apply_filter_zero [OF inv1 h1 add0 m1])
  from Cons.prems(5) have o: "set (out @ [0]) \<subseteq> {0}" by simp
  show ?case
  proof (cases "(i + 1) mod size_t_of_int (rs_ratio r1) = 0")
    case True
    from Cons.IH [OF inv1 h1 m1 xs o, of "i + 1"] True z show ?thesis
      by (simp add: x p y)
  next
    case False
    from Cons.IH [OF inv1 h1 m1 xs Cons.prems(5), of "i + 1"] False z show ?thesis
      by (simp add: x p)
  qed
qed

lemma interpolate_phases_zero:
  assumes add0: "(0::'a::{zero,plus,times}) + 0 = 0"
  shows "Resampler_inv r \<Longrightarrow> set (rs_history r) \<subseteq> {0} \<Longrightarrow> \<forall>c\<in>set (rs_coeffs r). 0 * c = (0::'a)
     \<Longrightarrow> 0 * tf (rs_ratio r) = 0 \<Longrightarrow> set out \<subseteq> {0}
     \<Longrightarrow> \<exists>out' r'. interpolate_phases tf r 0 ps out = Some (out', r') \<and> set out' \<subseteq> {0}
           \<and> Resampler_inv r' \<and> set (rs_history r') \<subseteq> {0}
           \<and> Resampler_config r' = Resampler_config r"
proof (induction ps arbitrary: r out)
  case Nil
  then show ?case by simp
next
  case (Cons phase ps)
  from Cons.prems(4) have s: "(if phase = 0 then 0 * tf (rs_ratio r) else 0) = 0" by simp
  from push_zero [OF Cons.prems(1,2)] obtain r1 where p: "push_sample 0 r = Some r1"
    and inv1: "Resampler_inv r1" and h1: "set (rs_history r1) \<subseteq> {0}"
    and c1: "Resampler_config r1 = Resampler_config r"
    by blast
  from c1 have co: "rs_coeffs r1 = rs_coeffs r" and ra: "rs_ratio r1 = rs_ratio r"
    by (simp_all add: Resampler_config_def)
  from co Cons.prems(3) have m1: "\<forall>c\<in>set (rs_coeffs r1). 0 * c = (0::'a)" by simp
  from ra Cons.prems(4) have f1: "0 * tf (rs_ratio r1) = 0" by simp
  have y: "apply_filter r1 = Some 0" by (rule apply_filter_zero [OF inv1 h1 add0 m1])
  from Cons.prems(5) have o: "set (out @ [0]) \<subseteq> {0}" by simp
  from Cons.IH [OF inv1 h1 m1 f1 o] c1 show ?case
    by (simp add: Let_def s p y)
qed

lemma interpolate_loop_zero:
  assumes add0: "(0::'a::{zero,plus,times}) + 0 = 0"
  shows "Resampler_inv r \<Longrightarrow> set (rs_history r) \<subseteq> {0} \<Longrightarrow> \<forall>c\<in>set (rs_coeffs r). 0 * c = (0::'a)
     \<Longrightarrow> 0 * tf (rs_ratio r) = 0 \<Longrightarrow> set xs \<subseteq> {0} \<Longrightarrow> set out \<subseteq> {0}
     \<Longrightarrow> \<exists>out' r'. interpolate_loop tf r xs out = Some (out', r') \<and> set out' \<subseteq> {0}"
proof (induction xs arbitrary: r out)
  case Nil
  then show ?case by simp
next
  case (Cons x xs)
  from Cons.prems(5) have x: "x = 0" and xs: "set xs \<subseteq> {0}" by auto
  from interpolate_phases_zero
    [where tf = tf and r = r and out = out and ps = "[0..<nat (rs_ratio r)]",
      OF add0 Cons.prems(1,2,3,4,6)]
  obtain out1 r1 where p: "interpolate_phases tf r 0 [0..<nat (rs_ratio r)] out = Some (out1, r1)"
    and o1: "set out1 \<subseteq> {0}" and inv1: "Resampler_inv r1" and h1: "set (rs_history r1) \<subseteq> {0}"
    and c1: "Resampler_config r1 = Resampler_config r"
    by blast
  from c1 have co: "rs_coeffs r1 = rs_coeffs r" and ra: "rs_ratio r1 = rs_ratio r"
    by (simp_all add: Resampler_config_def)
  from co Cons.prems(3) have m1: "\<forall>c\<in>set (rs_coeffs r1). 0 * c = (0::'a)" by simp
  from ra Cons.prems(4) have f1: "0 * tf (rs_ratio r1) = 0" by simp
  from Cons.IH [OF inv1 h1 m1 f1 xs o1] show ?case by (simp add: x p)
qed

lemma all_zero_replicate: "set xs \<subseteq> {0} \<Longrightarrow> xs = replicate (length xs) 0"
  by (induction xs) auto

lemma reset_zero_history: "set (rs_history (reset r)) \<subseteq> {0}"
  by (auto simp: reset_def)

lemma decimate_reset_zeros:
  assumes inv: "Resampler_inv r" and add0: "(0::'a::{zero,plus,times}) + 0 = 0"
    and mul0: "\<forall>c\<in>set (rs_coeffs r). 0 * c = (0::'a)"
  shows "\<exists>r'. decimate (reset r) (replicate n 0) = Some (replicate (n div nat (rs_ratio r)) 0, r')"
proof -
  note i = reset_inv [OF inv]
  have m: "\<forall>c\<in>set (rs_coeffs (reset r)). 0 * c = (0::'a)" using mul0 by (simp add: reset_def)
  from decimate_inv [OF i, of "replicate n 0"] obtain out r'
    where d: "decimate (reset r) (replicate n 0) = Some (out, r')"
      and l: "length out = n div nat (rs_ratio r)"
    by (auto simp: reset_def)
  have "\<exists>out' r'. decimate_loop (reset r) 0 (replicate n 0) [] = Some (out', r') \<and> set out' \<subseteq> {0}"
    by (rule decimate_loop_zero [OF add0 i reset_zero_history m]) auto
  with d have "set out \<subseteq> {0}" by (auto simp: decimate_def)
  from all_zero_replicate [OF this] l d show ?thesis by auto
qed

lemma interpolate_reset_zeros:
  assumes inv: "Resampler_inv r" and add0: "(0::'a::{zero,plus,times}) + 0 = 0"
    and mul0: "\<forall>c\<in>set (rs_coeffs r). 0 * c = (0::'a)" and f0: "0 * tf (rs_ratio r) = 0"
  shows "\<exists>r'. interpolate tf (reset r) (replicate n 0)
           = Some (replicate (n * nat (rs_ratio r)) 0, r')"
proof -
  note i = reset_inv [OF inv]
  have m: "\<forall>c\<in>set (rs_coeffs (reset r)). 0 * c = (0::'a)" using mul0 by (simp add: reset_def)
  have f: "0 * tf (rs_ratio (reset r)) = 0" using f0 by (simp add: reset_def)
  from interpolate_inv [OF i, of tf "replicate n 0"] obtain out r'
    where d: "interpolate tf (reset r) (replicate n 0) = Some (out, r')"
      and l: "length out = n * nat (rs_ratio r)"
    by (auto simp: reset_def)
  have "\<exists>out' r'. interpolate_loop tf (reset r) (replicate n 0) [] = Some (out', r')
      \<and> set out' \<subseteq> {0}"
    by (rule interpolate_loop_zero
        [where tf = tf and r = "reset r", OF add0 i reset_zero_history m f]) auto
  with d have "set out \<subseteq> {0}" by (auto simp: interpolate_def)
  from all_zero_replicate [OF this] l d show ?thesis by auto
qed

subsection \<open>Which samples are pushed, and when the filter runs\<close>













subsection \<open>Examples\<close>

lemma example_inv:
  "Resampler_inv \<lparr>rs_ratio = 2, rs_taps_per_phase = 1, rs_total_taps = 2,
       rs_coeffs = [1, 1 :: int], rs_history = [0, 0], rs_history_pos = 0\<rparr>"
  by (simp add: Resampler_inv_def)

lemma example_new:
  "Resampler_new (\<lambda>ratio total i. (1 :: int)) 2 1
     = Some \<lparr>rs_ratio = 2, rs_taps_per_phase = 1, rs_total_taps = 2,
         rs_coeffs = [1, 1], rs_history = [0, 0], rs_history_pos = 0\<rparr>"
  by (simp add: Resampler_new_def Let_def upt_rec numeral_2_eq_2)

lemma example_decimate:
  "decimate \<lparr>rs_ratio = 2, rs_taps_per_phase = 1, rs_total_taps = 2,
         rs_coeffs = [1, 1 :: int], rs_history = [0, 0], rs_history_pos = 0\<rparr> [5]
     = Some ([], \<lparr>rs_ratio = 2, rs_taps_per_phase = 1, rs_total_taps = 2,
         rs_coeffs = [1, 1], rs_history = [5, 0], rs_history_pos = 1\<rparr>)"
  by (simp add: decimate_def push_sample_def size_t_of_int_def size_t_add_def)

lemma example_reachable:
  "Resampler_reachable of_int
     \<lparr>rs_ratio = 2, rs_taps_per_phase = 1, rs_total_taps = 2,
         rs_coeffs = [1, 1 :: int], rs_history = [0, 0], rs_history_pos = 0\<rparr>
     \<lparr>rs_ratio = 2, rs_taps_per_phase = 1, rs_total_taps = 2,
         rs_coeffs = [1, 1 :: int], rs_history = [5, 0], rs_history_pos = 1\<rparr>"
  by (rule after_decimate [OF constructed example_decimate])

subsection \<open>The coefficients at float values\<close>

lemmas float_arith_defs = zero_float_value_def plus_float_value_def times_float_value_def
  float_sub_def float_of_int_def float_inf_def

lemma float_zero_plus_zero: "(0 :: float_value) + 0 = 0"
  by (simp add: float_arith_defs)

lemma float_zero_times_finite: "float_finite c \<Longrightarrow> 0 * c = 0"
  by (cases c) (simp_all add: float_arith_defs)

lemma float_zero_times_of_int: "0 * float_of_int i = 0"
  by (simp add: float_arith_defs)

lemma float_zero_times_iff: "0 * c = (0 :: float_value) \<longleftrightarrow> float_finite c"
  by (cases c) (simp_all add: float_arith_defs)

text \<open>
  With one tap, \<open>M = 0\<close>: the argument of the cosine is \<open>0 / 0\<close>, which is NaN, and NaN
  goes through the window, the product, the sum and the normalisation.
\<close>

lemma design_tap_1_1: "design_tap 1 1 0 = NaN"
  by (simp add: design_tap_def float_arith_defs Let_def)

lemma design_filter_1_1: "design_filter 1 1 0 = NaN"
  by (simp add: design_filter_def design_tap_1_1)

lemma Resampler_new_1_1:
  "Resampler_new design_filter 1 1
     = Some \<lparr>rs_ratio = 1, rs_taps_per_phase = 1, rs_total_taps = 1,
         rs_coeffs = [NaN], rs_history = [0], rs_history_pos = 0\<rparr>"
  by (simp add: Resampler_new_def Let_def design_filter_1_1)

lemma float_example_inv:
  "Resampler_inv \<lparr>rs_ratio = 2, rs_taps_per_phase = 1, rs_total_taps = 2,
       rs_coeffs = [Fin (1 / 2), Fin (1 / 2)], rs_history = [Fin 5, NaN], rs_history_pos = 1\<rparr>"
  by (simp add: Resampler_inv_def)

subsection \<open>The claims\<close>



text \<open>
  Claim C10. A resampler constructed with ratio and taps per phase at least 1 (their
  product an \<^verbatim>\<open>int\<close>) satisfies the invariant, of which
  \<open>history_pos < total_taps = ratio * taps_per_phase\<close> is a part. In a state that
  satisfies it, the modulus \<open>total_taps\<close> is not zero, every index
  \<open>(history_pos + i) mod total_taps\<close> with \<open>i < total_taps\<close> is inside the history,
  the filter, \<^verbatim>\<open>decimate\<close> and \<^verbatim>\<open>interpolate\<close> all return, and \<^verbatim>\<open>decimate\<close>,
  \<^verbatim>\<open>interpolate\<close> and \<^verbatim>\<open>reset\<close> leave a state that satisfies it again.
\<close>

theorem history_position_invariant:
  "(1 \<le> R \<and> 1 \<le> T \<and> R * T < 2 ^ 31 \<longrightarrow>
      (\<exists>r. Resampler_new design R T = Some r \<and> Resampler_inv r))
   \<and> (Resampler_inv r \<longrightarrow>
      rs_history_pos r < nat (rs_total_taps r)
      \<and> rs_total_taps r = rs_ratio r * rs_taps_per_phase r
      \<and> size_t_of_int (rs_total_taps r) \<noteq> 0
      \<and> (\<forall>i<nat (rs_total_taps r).
            size_t_add (rs_history_pos r) i mod size_t_of_int (rs_total_taps r)
              < length (rs_history r))
      \<and> (\<exists>y. apply_filter r = Some y)
      \<and> (\<exists>out r'. decimate r xs = Some (out, r') \<and> Resampler_inv r')
      \<and> (\<exists>out r'. interpolate tf r xs = Some (out, r') \<and> Resampler_inv r')
      \<and> Resampler_inv (reset r))"
proof (intro conjI impI allI)
  assume "1 \<le> R \<and> 1 \<le> T \<and> R * T < 2 ^ 31"
  then show "\<exists>r. Resampler_new design R T = Some r \<and> Resampler_inv r"
    by (intro Resampler_new_inv) simp_all
next
  assume inv: "Resampler_inv r"
  note t = Resampler_inv_total [OF inv]
  from inv show "rs_history_pos r < nat (rs_total_taps r)"
    and "rs_total_taps r = rs_ratio r * rs_taps_per_phase r"
    by (auto simp: Resampler_inv_def)
  from t(1) t(3) show "size_t_of_int (rs_total_taps r) \<noteq> 0" by simp
  show "\<exists>y. apply_filter r = Some y" by (rule apply_filter_Some [OF inv])
  from decimate_inv [OF inv, of xs]
  show "\<exists>out r'. decimate r xs = Some (out, r') \<and> Resampler_inv r'" by blast
  from interpolate_inv [OF inv, of tf xs]
  show "\<exists>out r'. interpolate tf r xs = Some (out, r') \<and> Resampler_inv r'" by blast
  show "Resampler_inv (reset r)" by (rule reset_inv [OF inv])
next
  fix i
  assume inv: "Resampler_inv r" and i: "i < nat (rs_total_taps r)"
  show "size_t_add (rs_history_pos r) i mod size_t_of_int (rs_total_taps r)
      < length (rs_history r)"
    by (rule filter_index_in_bounds(1) [OF inv i])
qed

theorem history_position_invariant_witness:
  "(1 :: int) \<le> 6 \<and> (1 :: int) \<le> 8 \<and> (6 :: int) * 8 < 2 ^ 31
   \<and> (\<exists>r. Resampler_new (\<lambda>ratio total i. (1 :: int)) 6 8 = Some r \<and> Resampler_inv r)
   \<and> Resampler_inv \<lparr>rs_ratio = 2, rs_taps_per_phase = 1, rs_total_taps = 2,
       rs_coeffs = [1, 1 :: int], rs_history = [0, 0], rs_history_pos = 0\<rparr>
   \<and> (\<exists>out r'. decimate \<lparr>rs_ratio = 2, rs_taps_per_phase = 1, rs_total_taps = 2,
       rs_coeffs = [1, 1 :: int], rs_history = [0, 0], rs_history_pos = 0\<rparr> [1, 2, 3]
         = Some (out, r') \<and> Resampler_inv r')
   \<and> (\<exists>out r'. interpolate of_int \<lparr>rs_ratio = 2, rs_taps_per_phase = 1, rs_total_taps = 2,
       rs_coeffs = [1, 1 :: int], rs_history = [0, 0], rs_history_pos = 0\<rparr> [1, 2, 3]
         = Some (out, r') \<and> Resampler_inv r')"
proof -
  note t = history_position_invariant
    [of 6 8 "\<lambda>ratio total i. (1 :: int)"
      "\<lparr>rs_ratio = 2, rs_taps_per_phase = 1, rs_total_taps = 2,
       rs_coeffs = [1, 1 :: int], rs_history = [0, 0], rs_history_pos = 0\<rparr>"
      "[1, 2, 3]" of_int]
  have h: "(1 :: int) \<le> 6 \<and> (1 :: int) \<le> 8 \<and> (6 :: int) * 8 < 2 ^ 31" by simp
  from t h example_inv show ?thesis by blast
qed

text \<open>
  Claim C8, as the code has it. \<^verbatim>\<open>reset\<close> sets every entry of the history to zero and
  the position to 0 and leaves the coefficients alone; in any state that the operations
  can reach from a constructed resampler, it gives back exactly the state the constructor
  left. After \<^verbatim>\<open>reset\<close> in any state of a well-formed resampler whose coefficients are all
  finite numbers, \<^verbatim>\<open>decimate\<close> of \<open>n\<close> zeros returns \<open>n div R\<close> zeros and
  \<^verbatim>\<open>interpolate\<close> of \<open>n\<close> zeros returns \<open>n * R\<close> zeros. For a sample arithmetic left
  open, what is used of finite coefficients is stated instead: zero plus zero is zero,
  zero times each coefficient is zero, and zero times the ratio is zero.
\<close>

theorem reset_restores_construction:
  "reset r = r\<lparr>rs_history := replicate (length (rs_history r)) 0, rs_history_pos := 0\<rparr>
   \<and> rs_coeffs (reset r) = rs_coeffs r
   \<and> (Resampler_new design R T = Some r0 \<and> Resampler_reachable tf r0 r \<longrightarrow> reset r = r0)
   \<and> (Resampler_inv r \<and> (0 :: 'a :: {zero,plus,times}) + 0 = 0
        \<and> (\<forall>c\<in>set (rs_coeffs r). 0 * c = (0 :: 'a)) \<longrightarrow>
      (\<exists>r'. decimate (reset r) (replicate n 0)
               = Some (replicate (n div nat (rs_ratio r)) 0, r')))
   \<and> (Resampler_inv r \<and> (0 :: 'a) + 0 = 0
        \<and> (\<forall>c\<in>set (rs_coeffs r). 0 * c = (0 :: 'a)) \<and> 0 * tf (rs_ratio r) = 0 \<longrightarrow>
      (\<exists>r'. interpolate tf (reset r) (replicate n 0)
               = Some (replicate (n * nat (rs_ratio r)) 0, r')))
   \<and> (Resampler_inv rf \<and> (\<forall>c\<in>set (rs_coeffs rf). float_finite c) \<longrightarrow>
      (\<exists>r'. decimate (reset rf) (replicate n 0)
               = Some (replicate (n div nat (rs_ratio rf)) 0, r'))
      \<and> (\<exists>r'. interpolate float_of_int (reset rf) (replicate n 0)
               = Some (replicate (n * nat (rs_ratio rf)) 0, r')))"
proof (intro conjI impI)
  show "reset r = r\<lparr>rs_history := replicate (length (rs_history r)) 0, rs_history_pos := 0\<rparr>"
    by (rule reset_eq)
  show "rs_coeffs (reset r) = rs_coeffs r" by (simp add: reset_def)
next
  assume a: "Resampler_new design R T = Some r0 \<and> Resampler_reachable tf r0 r"
  then have "Resampler_config r = Resampler_config r0"
    by (intro Resampler_reachable_config [of tf]) simp
  with a show "reset r = r0" by (intro reset_constructed [of design R T]) simp_all
next
  assume a: "Resampler_inv r \<and> (0 :: 'a) + 0 = 0 \<and> (\<forall>c\<in>set (rs_coeffs r). 0 * c = (0 :: 'a))"
  then show "\<exists>r'. decimate (reset r) (replicate n 0)
               = Some (replicate (n div nat (rs_ratio r)) 0, r')"
    by (intro decimate_reset_zeros) simp_all
next
  assume a: "Resampler_inv r \<and> (0 :: 'a) + 0 = 0
        \<and> (\<forall>c\<in>set (rs_coeffs r). 0 * c = (0 :: 'a)) \<and> 0 * tf (rs_ratio r) = 0"
  then show "\<exists>r'. interpolate tf (reset r) (replicate n 0)
               = Some (replicate (n * nat (rs_ratio r)) 0, r')"
    by (intro interpolate_reset_zeros) simp_all
next
  assume a: "Resampler_inv rf \<and> (\<forall>c\<in>set (rs_coeffs rf). float_finite c)"
  then have m: "\<forall>c\<in>set (rs_coeffs rf). 0 * c = (0 :: float_value)"
    by (simp add: float_zero_times_finite)
  from a m show "\<exists>r'. decimate (reset rf) (replicate n 0)
               = Some (replicate (n div nat (rs_ratio rf)) 0, r')"
    by (intro decimate_reset_zeros float_zero_plus_zero) simp_all
next
  assume a: "Resampler_inv rf \<and> (\<forall>c\<in>set (rs_coeffs rf). float_finite c)"
  then have m: "\<forall>c\<in>set (rs_coeffs rf). 0 * c = (0 :: float_value)"
    by (simp add: float_zero_times_finite)
  from a m show "\<exists>r'. interpolate float_of_int (reset rf) (replicate n 0)
               = Some (replicate (n * nat (rs_ratio rf)) 0, r')"
    by (intro interpolate_reset_zeros float_zero_plus_zero float_zero_times_of_int) simp_all
qed

theorem reset_restores_construction_witness:
  "Resampler_new (\<lambda>ratio total i. (1 :: int)) 2 1
     = Some \<lparr>rs_ratio = 2, rs_taps_per_phase = 1, rs_total_taps = 2,
         rs_coeffs = [1, 1], rs_history = [0, 0], rs_history_pos = 0\<rparr>
   \<and> Resampler_reachable of_int
     \<lparr>rs_ratio = 2, rs_taps_per_phase = 1, rs_total_taps = 2,
         rs_coeffs = [1, 1 :: int], rs_history = [0, 0], rs_history_pos = 0\<rparr>
     \<lparr>rs_ratio = 2, rs_taps_per_phase = 1, rs_total_taps = 2,
         rs_coeffs = [1, 1 :: int], rs_history = [5, 0], rs_history_pos = 1\<rparr>
   \<and> reset \<lparr>rs_ratio = 2, rs_taps_per_phase = 1, rs_total_taps = 2,
         rs_coeffs = [1, 1 :: int], rs_history = [5, 0], rs_history_pos = 1\<rparr>
     = \<lparr>rs_ratio = 2, rs_taps_per_phase = 1, rs_total_taps = 2,
         rs_coeffs = [1, 1 :: int], rs_history = [0, 0], rs_history_pos = 0\<rparr>
   \<and> Resampler_inv \<lparr>rs_ratio = 2, rs_taps_per_phase = 1, rs_total_taps = 2,
         rs_coeffs = [1, 1 :: int], rs_history = [5, 0], rs_history_pos = 1\<rparr>
   \<and> (\<exists>r'. decimate (reset \<lparr>rs_ratio = 2, rs_taps_per_phase = 1, rs_total_taps = 2,
         rs_coeffs = [1, 1 :: int], rs_history = [5, 0], rs_history_pos = 1\<rparr>) (replicate 5 0)
        = Some (replicate 2 0, r'))
   \<and> (\<exists>r'. interpolate of_int (reset \<lparr>rs_ratio = 2, rs_taps_per_phase = 1, rs_total_taps = 2,
         rs_coeffs = [1, 1 :: int], rs_history = [5, 0], rs_history_pos = 1\<rparr>) (replicate 5 0)
        = Some (replicate 10 0, r'))
   \<and> Resampler_inv \<lparr>rs_ratio = 2, rs_taps_per_phase = 1, rs_total_taps = 2,
         rs_coeffs = [Fin (1 / 2), Fin (1 / 2)], rs_history = [Fin 5, NaN], rs_history_pos = 1\<rparr>
   \<and> float_finite (Fin (1 / 2))
   \<and> (\<exists>r'. decimate (reset \<lparr>rs_ratio = 2, rs_taps_per_phase = 1, rs_total_taps = 2,
         rs_coeffs = [Fin (1 / 2), Fin (1 / 2)], rs_history = [Fin 5, NaN], rs_history_pos = 1\<rparr>)
         (replicate 5 0)
        = Some (replicate 2 0, r'))
   \<and> (\<exists>r'. interpolate float_of_int
         (reset \<lparr>rs_ratio = 2, rs_taps_per_phase = 1, rs_total_taps = 2,
         rs_coeffs = [Fin (1 / 2), Fin (1 / 2)], rs_history = [Fin 5, NaN], rs_history_pos = 1\<rparr>)
         (replicate 5 0)
        = Some (replicate 10 0, r'))"
proof -
  let ?init = "\<lparr>rs_ratio = 2, rs_taps_per_phase = 1, rs_total_taps = 2,
         rs_coeffs = [1, 1 :: int], rs_history = [0, 0], rs_history_pos = 0\<rparr>"
  let ?cur = "\<lparr>rs_ratio = 2, rs_taps_per_phase = 1, rs_total_taps = 2,
         rs_coeffs = [1, 1 :: int], rs_history = [5, 0], rs_history_pos = 1\<rparr>"
  let ?flt = "\<lparr>rs_ratio = 2, rs_taps_per_phase = 1, rs_total_taps = 2,
         rs_coeffs = [Fin (1 / 2), Fin (1 / 2)], rs_history = [Fin 5, NaN], rs_history_pos = 1\<rparr>"
  note t = reset_restores_construction
    [of ?cur "\<lambda>ratio total i. (1 :: int)" 2 1 ?init of_int 5 ?flt]
  have inv: "Resampler_inv ?cur" by (simp add: Resampler_inv_def)
  have h1: "Resampler_new (\<lambda>ratio total i. (1 :: int)) 2 1 = Some ?init
      \<and> Resampler_reachable of_int ?init ?cur"
    by (rule conjI [OF example_new example_reachable])
  have h2: "Resampler_inv ?cur \<and> (0 :: int) + 0 = 0 \<and> (\<forall>c\<in>set (rs_coeffs ?cur). 0 * c = (0 :: int))"
    using inv by simp
  have h3: "Resampler_inv ?cur \<and> (0 :: int) + 0 = 0 \<and> (\<forall>c\<in>set (rs_coeffs ?cur). 0 * c = (0 :: int))
      \<and> 0 * of_int (rs_ratio ?cur) = (0 :: int)"
    using inv by simp
  have h4: "Resampler_inv ?flt \<and> (\<forall>c\<in>set (rs_coeffs ?flt). float_finite c)"
    using float_example_inv by simp
  from t h1 have a: "reset ?cur = ?init" by blast
  from t h2 have b: "\<exists>r'. decimate (reset ?cur) (replicate 5 0)
      = Some (replicate (5 div nat (rs_ratio ?cur)) 0, r')" by blast
  from t h3 have c: "\<exists>r'. interpolate of_int (reset ?cur) (replicate 5 0)
      = Some (replicate (5 * nat (rs_ratio ?cur)) 0, r')" by blast
  from t h4 have e: "\<exists>r'. decimate (reset ?flt) (replicate 5 0)
      = Some (replicate (5 div nat (rs_ratio ?flt)) 0, r')" by blast
  from t h4 have f: "\<exists>r'. interpolate float_of_int (reset ?flt) (replicate 5 0)
      = Some (replicate (5 * nat (rs_ratio ?flt)) 0, r')" by blast
  have d: "5 div nat (rs_ratio ?cur) = 2" "5 * nat (rs_ratio ?cur) = 10"
    "5 div nat (rs_ratio ?flt) = 2" "5 * nat (rs_ratio ?flt) = 10" by simp_all
  have g: "float_finite (Fin (1 / 2))" by simp
  from h1 a inv b c float_example_inv g e f show ?thesis by (simp only: d)
qed

text \<open>
  The claim as written, for any prior state of any resampler, fails at the resampler
  constructed with ratio 1 and one tap per phase. It is well formed, and its one
  coefficient is NaN (\<^verbatim>\<open>design_filter\<close> divides \<open>0\<close> by \<open>M = 0\<close> in the window). After
  \<^verbatim>\<open>reset\<close>, \<^verbatim>\<open>decimate\<close> and \<^verbatim>\<open>interpolate\<close> of the one-sample zero input both return
  the one sample NaN, the product of the zero in the history and the coefficient.
\<close>

theorem reset_zero_input_NaN_counterexample:
  "Resampler_new design_filter 1 1
     = Some \<lparr>rs_ratio = 1, rs_taps_per_phase = 1, rs_total_taps = 1,
         rs_coeffs = [NaN], rs_history = [0], rs_history_pos = 0\<rparr>
   \<and> Resampler_inv \<lparr>rs_ratio = 1, rs_taps_per_phase = 1, rs_total_taps = 1,
         rs_coeffs = [NaN], rs_history = [0], rs_history_pos = 0\<rparr>
   \<and> decimate (reset \<lparr>rs_ratio = 1, rs_taps_per_phase = 1, rs_total_taps = 1,
         rs_coeffs = [NaN], rs_history = [0], rs_history_pos = 0\<rparr>) [0]
       = Some ([NaN], \<lparr>rs_ratio = 1, rs_taps_per_phase = 1, rs_total_taps = 1,
         rs_coeffs = [NaN], rs_history = [0], rs_history_pos = 0\<rparr>)
   \<and> interpolate float_of_int (reset \<lparr>rs_ratio = 1, rs_taps_per_phase = 1, rs_total_taps = 1,
         rs_coeffs = [NaN], rs_history = [0], rs_history_pos = 0\<rparr>) [0]
       = Some ([NaN], \<lparr>rs_ratio = 1, rs_taps_per_phase = 1, rs_total_taps = 1,
         rs_coeffs = [NaN], rs_history = [0], rs_history_pos = 0\<rparr>)
   \<and> [NaN] \<noteq> [0 :: float_value]"
  by (simp add: Resampler_new_1_1 Resampler_inv_def reset_def decimate_def interpolate_def
        push_sample_def apply_filter_def size_t_of_int_def size_t_add_def float_arith_defs)

end
